theory Spec2Isabelle
  imports Main "HOL-Library.Word" "HOL-Library.Signed_Division" "HOL-Library.Sublist"
begin

unbundle bit_operations_syntax

section \<open>The machine state of open-racer-firmware.c\<close>

text \<open>
  The firmware runs on an 8-bit AVR. \<open>uint8_t\<close> is \<open>8 word\<close>, \<open>int16_t\<close> and the
  16-bit compare registers of timer 1 are \<open>16 word\<close>; a signed value is read with
  \<open>sint\<close> and compared with \<open>\<le>s\<close> and \<open><s\<close>. \<open>int\<close> is 16 bits wide on this
  target, so the integer promotions of C stay inside \<open>16 word\<close>.

  The record holds the registers the program writes, its static variables, its two
  EEPROM bytes, and the two ends of the outside world that the program reaches through
  a register: the bytes written to the transmit register \<open>UDR0\<close> so far, and the
  values the free-running converter delivers in \<open>ADCH\<close>, one per read.
  The busy-wait delays and the watchdog refresh change nothing of this state and
  have no counterpart below.
\<close>

type_synonym u8 = "8 word"
type_synonym u16 = "16 word"
type_synonym i16 = "16 word"

record state =
  PORTC :: u8
  PORTD :: u8
  OCR0A :: u8
  OCR0B :: u8
  OCR1A :: u16
  OCR1B :: u16
  OCR2B :: u8
  ee_ourmagic :: u8
  ee_ourage :: u8
  velocity :: i16
  steerposition :: i16
  battlevel :: u8
  voltagedisplaytogglecountdown :: u8
  voltagedisplaytogglestate :: u8
  battwarntogglecountdown :: u8
  battwarntogglestate :: u8
  uart_tx :: "u8 list"
  adc_trace :: "nat \<Rightarrow> u8"
  adc_reads :: nat

text \<open>What one pass of the main loop reads from its pins: the level of PD4 and the
  byte waiting in the receiver, if the receive-complete flag is set.\<close>

record inputs =
  PIND4 :: bool
  rx :: "u8 option"

abbreviation ch :: "char \<Rightarrow> u8" where
  "ch c \<equiv> of_char c"

subsection \<open>uart.c\<close>

text \<open>\<open>uart_sendch\<close> waits for the data register to empty and writes the byte.\<close>

definition uart_sendch :: "u8 \<Rightarrow> state \<Rightarrow> state" where
  "uart_sendch c s = s\<lparr>uart_tx := uart_tx s @ [c]\<rparr>"

text \<open>\<open>uart_send\<close> sends the characters before the terminating NUL. Its index is a
  \<open>uint8_t\<close>; every caller passes a literal of fewer than 256 characters.\<close>

definition uart_send :: "string \<Rightarrow> state \<Rightarrow> state" where
  "uart_send data s = fold (\<lambda>c. uart_sendch (ch c)) data s"

text \<open>\<open>uart_sendint\<close>: C's \<open>%\<close> and \<open>/\<close> truncate towards zero (\<open>smod\<close>, \<open>sdiv\<close>);
  each digit is stored in a \<open>uint8_t\<close>.\<close>

definition uart_sendint :: "i16 \<Rightarrow> state \<Rightarrow> state" where
  "uart_sendint v0 s =
    (let v = (if v0 <s 0 then - v0 else v0);
         s0 = (if v0 <s 0 then uart_sendch (ch CHR ''-'') s else s);
         k = sint v;
         th = ch CHR ''0'' + word_of_int ((k smod 10000) sdiv 1000);
         h = ch CHR ''0'' + word_of_int ((k smod 1000) sdiv 100);
         t = ch CHR ''0'' + word_of_int ((k smod 100) sdiv 10);
         ones = ch CHR ''0'' + word_of_int ((k smod 10) sdiv 1);
         n1 = (th \<noteq> ch CHR ''0'');
         s1 = (if n1 then uart_sendch th s0 else s0);
         n2 = (n1 \<or> h \<noteq> ch CHR ''0'');
         s2 = (if n2 then uart_sendch h s1 else s1);
         n3 = (n2 \<or> t \<noteq> ch CHR ''0'');
         s3 = (if n3 then uart_sendch t s2 else s2)
     in uart_sendch ones s3)"

subsection \<open>Indicators\<close>

definition led1on :: "state \<Rightarrow> state" where
  "led1on s = s\<lparr>PORTC := set_bit 5 (PORTC s)\<rparr>"

definition led1off :: "state \<Rightarrow> state" where
  "led1off s = s\<lparr>PORTC := unset_bit 5 (PORTC s)\<rparr>"

definition led2on :: "state \<Rightarrow> state" where
  "led2on s = s\<lparr>PORTC := set_bit 4 (PORTC s)\<rparr>"

definition led2off :: "state \<Rightarrow> state" where
  "led2off s = s\<lparr>PORTC := unset_bit 4 (PORTC s)\<rparr>"

definition led3on :: "state \<Rightarrow> state" where
  "led3on s = s\<lparr>PORTC := set_bit 3 (PORTC s)\<rparr>"

definition led3off :: "state \<Rightarrow> state" where
  "led3off s = s\<lparr>PORTC := unset_bit 3 (PORTC s)\<rparr>"

definition led4on :: "state \<Rightarrow> state" where
  "led4on s = s\<lparr>PORTC := set_bit 2 (PORTC s)\<rparr>"

definition led4off :: "state \<Rightarrow> state" where
  "led4off s = s\<lparr>PORTC := unset_bit 2 (PORTC s)\<rparr>"

text \<open>\<open>flash_led1\<close>: the rate only selects the length of the delays.\<close>

definition flash_led1 :: "u8 \<Rightarrow> u8 \<Rightarrow> state \<Rightarrow> state" where
  "flash_led1 count rate s = ((\<lambda>x. led1off (led1on x)) ^^ unat count) (led1off s)"

subsection \<open>The persistent counter\<close>

definition OURMAGIC :: u8 where
  "OURMAGIC = 0x47"

definition check_magic_and_show_age :: "state \<Rightarrow> state" where
  "check_magic_and_show_age s =
    (let s1 = flash_led1 4 1 s;
         m = ee_ourmagic s1;
         s2 = (if m \<noteq> OURMAGIC then flash_led1 20 2 s1 else s1);
         age = ee_ourage s2;
         s3 = led4off (led3off (led2off (led1off s2)));
         s4 = (if age AND 1 \<noteq> 0 then led1on s3 else s3);
         s5 = (if age AND 2 \<noteq> 0 then led2on s4 else s4);
         s6 = (if age AND 4 \<noteq> 0 then led3on s5 else s5);
         s7 = (if age AND 8 \<noteq> 0 then led4on s6 else s6)
     in led4off (led3off (led2off (led1off s7))))"

definition age_once :: "state \<Rightarrow> state" where
  "age_once s = s\<lparr>ee_ourage := ee_ourage s + 1\<rparr>"

subsection \<open>The actuation mapper\<close>

definition motor_drive_forward :: "i16 \<Rightarrow> state \<Rightarrow> state" where
  "motor_drive_forward speed s = s\<lparr>OCR1A := 0, OCR1B := speed\<rparr>"

definition motor_drive_reverse :: "i16 \<Rightarrow> state \<Rightarrow> state" where
  "motor_drive_reverse speed s = s\<lparr>OCR1B := 0, OCR1A := speed\<rparr>"

definition motor_steer_right :: "u8 \<Rightarrow> state \<Rightarrow> state" where
  "motor_steer_right v s = s\<lparr>OCR0B := 0, OCR0A := v\<rparr>"

definition motor_steer_left :: "u8 \<Rightarrow> state \<Rightarrow> state" where
  "motor_steer_left v s = s\<lparr>OCR0A := 0, OCR0B := v\<rparr>"

text \<open>Both setters open with the same two statements, which bring the argument into
  [-255, 255]; then they store it, report it over the transport and write the two duty
  registers of their axis.\<close>

definition clamp255 :: "i16 \<Rightarrow> i16" where
  "clamp255 n =
    (let n1 = (if 255 <s n then 255 else n)
     in if n1 <s - 255 then - 255 else n1)"

definition motor_drive_set_velocity :: "i16 \<Rightarrow> state \<Rightarrow> state" where
  "motor_drive_set_velocity newvelocity s =
    (let s1 = s\<lparr>velocity := clamp255 newvelocity\<rparr>;
         s2 = uart_sendch (ch CHR 0x0A) (uart_sendint (velocity s1) (uart_send ''drive='' s1))
     in if 0 \<le>s velocity s2
        then motor_drive_forward (velocity s2 AND 0xff) s2
        else motor_drive_reverse (0xff - (velocity s2 AND 0xff)) s2)"

definition motor_steer_set_velocity :: "i16 \<Rightarrow> state \<Rightarrow> state" where
  "motor_steer_set_velocity newsteerposition s =
    (let s1 = s\<lparr>steerposition := clamp255 newsteerposition\<rparr>;
         s2 = uart_sendch (ch CHR 0x0A)
                (uart_sendint (steerposition s1) (uart_send ''steer='' s1))
     in if 0 \<le>s steerposition s2
        then motor_steer_right (ucast (steerposition s2 AND 0xff)) s2
        else motor_steer_left (ucast (0xff - (steerposition s2 AND 0xff))) s2)"

subsection \<open>The command decoders\<close>

definition handle_char_compat_dagu :: "u8 \<Rightarrow> state \<Rightarrow> state" where
  "handle_char_compat_dagu command s =
    (let speed = (105 + (command AND 0x0f) * 1 :: u8);
         direction = drop_bit 4 (command AND 0xf0);
         fwd = (ucast speed :: i16);
         back = - (ucast speed :: i16)
     in if direction = 0 then motor_drive_set_velocity 0 (motor_steer_set_velocity 0 s)
        else if direction = 1 then motor_drive_set_velocity fwd (motor_steer_set_velocity 0 s)
        else if direction = 2 then motor_drive_set_velocity back (motor_steer_set_velocity 0 s)
        else if direction = 3 then motor_drive_set_velocity 0 (motor_steer_set_velocity (- 255) s)
        else if direction = 4 then motor_drive_set_velocity 0 (motor_steer_set_velocity 255 s)
        else if direction = 5 then motor_drive_set_velocity fwd (motor_steer_set_velocity (- 255) s)
        else if direction = 6 then motor_drive_set_velocity fwd (motor_steer_set_velocity 255 s)
        else if direction = 7 then motor_drive_set_velocity back (motor_steer_set_velocity (- 255) s)
        else if direction = 8 then motor_drive_set_velocity back (motor_steer_set_velocity 255 s)
        else s)"

text \<open>The direct protocol. \<open>?\<close> reads \<open>ADCH\<close> once.\<close>

definition handle_char :: "u8 \<Rightarrow> state \<Rightarrow> state" where
  "handle_char command s =
    (if command = ch CHR ''R'' then motor_steer_set_velocity 255 s
     else if command = ch CHR ''r'' then motor_steer_set_velocity 127 s
     else if command = ch CHR ''s'' then motor_steer_set_velocity 0 s
     else if command = ch CHR ''l'' then motor_steer_set_velocity (- 127) s
     else if command = ch CHR ''L'' then motor_steer_set_velocity (- 255) s
     else if command = ch CHR ''F'' then motor_drive_set_velocity 255 s
     else if command = ch CHR ''f'' then motor_drive_set_velocity 127 s
     else if command = ch CHR ''h'' then motor_drive_set_velocity 0 s
     else if command = ch CHR ''b'' then motor_drive_set_velocity (- 127) s
     else if command = ch CHR ''B'' then motor_drive_set_velocity (- 255) s
     else if command = ch CHR ''a'' then motor_steer_set_velocity (- 255) s
     else if command = ch CHR ''o'' then motor_steer_set_velocity 0 s
     else if command = ch CHR ''e'' then motor_steer_set_velocity 255 s
     else if command = ch CHR ''p'' then motor_drive_set_velocity (velocity s + 5) s
     else if command = ch CHR ''u'' then motor_drive_set_velocity (velocity s - 5) s
     else if command = ch CHR '' '' then motor_steer_set_velocity 0 (motor_drive_set_velocity 0 s)
     else if command = ch CHR ''A''
       then check_magic_and_show_age (age_once (check_magic_and_show_age s))
     else if command = ch CHR ''?''
       then (let s1 = uart_send ''batt='' (uart_send
                        (''steering: RrslL'' @ [CHR 0x0A] @ ''gas: FfhbB'' @ [CHR 0x0A]) s);
                 r = adc_trace s1 (adc_reads s1);
                 s2 = s1\<lparr>adc_reads := adc_reads s1 + 1\<rparr>
             in uart_sendch (ch CHR 0x0A) (uart_sendint (ucast r) s2))
     else uart_send (''?'' @ [CHR 0x0A]) s)"

subsection \<open>The battery monitor\<close>

text \<open>The arithmetic of \<open>batt_sample\<close> on its local \<open>uint8_t battsample\<close>: the
  subtraction and the multiplication are stored back into the 8-bit variable, and both
  comparisons are kept as the source has them (an 8-bit unsigned value compared with 0
  and with 255).\<close>

definition batt_rescale :: "u8 \<Rightarrow> u8" where
  "batt_rescale r =
    (let b1 = r - 142;
         b2 = (if b1 < 0 then 0 else b1);
         b3 = b2 * 5
     in if b3 > 255 then 255 else b3)"

definition batt_sample :: "state \<Rightarrow> state" where
  "batt_sample s =
    s\<lparr>battlevel := batt_rescale (adc_trace s (adc_reads s)), adc_reads := adc_reads s + 1\<rparr>"

text \<open>The loop of \<open>batt_low_consistently\<close>; the first argument is the number of
  passes still to run.\<close>

fun batt_low_loop :: "nat \<Rightarrow> u8 \<Rightarrow> u8 \<Rightarrow> state \<Rightarrow> u8 \<times> state" where
  "batt_low_loop 0 threshold warn s = (warn, s)"
| "batt_low_loop (Suc n) threshold warn s =
    (let s1 = batt_sample s
     in if battlevel s1 < threshold
        then batt_low_loop n threshold (warn + 1)
               (uart_sendint (ucast (battlevel s1)) (uart_send '' batt='' s1))
        else batt_low_loop n threshold warn s1)"

definition batt_low_consistently :: "u8 \<Rightarrow> state \<Rightarrow> u8 \<times> state" where
  "batt_low_consistently threshold s =
    (let (warn, s1) = batt_low_loop 20 threshold 0 (uart_send ''batt long check:'' s)
     in (if warn > 17 then 1 else 0, uart_send ('' done.'' @ [CHR 0x0A]) s1))"

subsection \<open>The main loop\<close>

definition battlowthreshold :: u8 where
  "battlowthreshold = 10"

definition voltagedisplaytoggleperiodlength :: u8 where
  "voltagedisplaytoggleperiodlength = 200"

definition battwarntoggleperiodlength :: u8 where
  "battwarntoggleperiodlength = 20"

text \<open>The state in which \<open>main\<close> enters its loop: the initialisers of the static
  variables and of the EEPROM image, the registers as the set-up code and the
  self-test leave them, nothing sent yet.\<close>

definition initial_state :: "(nat \<Rightarrow> u8) \<Rightarrow> state" where
  "initial_state adc =
    \<lparr>PORTC = 0xC3, PORTD = 0xF7, OCR0A = 0, OCR0B = 0, OCR1A = 0, OCR1B = 0, OCR2B = 0xff,
     ee_ourmagic = OURMAGIC, ee_ourage = 0, velocity = 0, steerposition = 0, battlevel = 11,
     voltagedisplaytogglecountdown = 10, voltagedisplaytogglestate = 0,
     battwarntogglecountdown = 0, battwarntogglestate = 0,
     uart_tx = [], adc_trace = adc, adc_reads = 0\<rparr>"

text \<open>The blocks of the loop body, in source order.\<close>

definition link_check :: "inputs \<Rightarrow> state \<Rightarrow> state" where
  "link_check inp s =
    (if PIND4 inp then s
     else motor_steer_set_velocity 0 (motor_drive_set_velocity 0 s))"

definition command_ingest :: "inputs \<Rightarrow> state \<Rightarrow> state" where
  "command_ingest inp s =
    (case rx inp of
       None \<Rightarrow> s
     | Some command \<Rightarrow> handle_char_compat_dagu command (led4off (led4on s)))"

definition lnot :: "u8 \<Rightarrow> u8" where
  "lnot x = (if x = 0 then 1 else 0)"

definition voltagedisplay_step :: "state \<Rightarrow> state" where
  "voltagedisplay_step s =
    (let s1 = s\<lparr>voltagedisplaytogglecountdown := voltagedisplaytogglecountdown s - 1\<rparr>;
         s2 = (if voltagedisplaytogglecountdown s1 \<le> 0
               then s1\<lparr>voltagedisplaytogglecountdown := voltagedisplaytoggleperiodlength,
                       voltagedisplaytogglestate := lnot (voltagedisplaytogglestate s1)\<rparr>
               else s1)
     in if voltagedisplaytogglestate s2 \<noteq> 0
        then (let s3 = batt_sample s2 in s3\<lparr>OCR2B := 0xff - battlevel s3\<rparr>)
        else s2\<lparr>OCR2B := 0xff - 0xff\<rparr>)"

definition battwarn_step :: "state \<Rightarrow> state" where
  "battwarn_step s =
    (let s1 = s\<lparr>battwarntogglecountdown := battwarntogglecountdown s - 1\<rparr>
     in if battwarntogglecountdown s1 \<le> 0
        then s1\<lparr>battwarntogglecountdown := battwarntoggleperiodlength,
                battwarntogglestate := lnot (battwarntogglestate s1)\<rparr>
        else s1)"

text \<open>The state in which the loop reaches \<open>if (battlevel < battlowthreshold)\<close>.\<close>

definition tick_front :: "inputs \<Rightarrow> state \<Rightarrow> state" where
  "tick_front inp s =
    battwarn_step (voltagedisplay_step (command_ingest inp (link_check inp s)))"

text \<open>The line \<open>batt=\<close> sent before the long check: its result is the state in
  which \<open>batt_low_consistently\<close> is called.\<close>

definition batt_announce :: "state \<Rightarrow> state" where
  "batt_announce s =
    uart_sendch (ch CHR 0x0A) (uart_sendint (ucast (battlevel s)) (uart_send ''batt='' s))"

definition batt_critical_check :: "state \<Rightarrow> state" where
  "batt_critical_check s =
    (if battlevel s < battlowthreshold
     then (let s1 = batt_announce s;
               (low, s2) = batt_low_consistently battlowthreshold s1
           in if low \<noteq> 0
              then (let s3 = (if battwarntogglestate s2 \<noteq> 0 then led3on s2 else led3off s2)
                    in motor_steer_set_velocity 0 (motor_drive_set_velocity 0 s3))
              else s2)
     else s)"

definition tick :: "inputs \<Rightarrow> state \<Rightarrow> state" where
  "tick inp s = batt_critical_check (tick_front inp s)"

text \<open>Running the loop over the inputs of successive passes.\<close>

fun run :: "inputs list \<Rightarrow> state \<Rightarrow> state" where
  "run [] s = s"
| "run (inp # inps) s = run inps (tick inp s)"

section \<open>Notions used in the statements\<close>

text \<open>A pass of the loop with the link up and nothing received.\<close>

definition idle :: inputs where
  "idle = \<lparr>PIND4 = True, rx = None\<rparr>"

text \<open>A converter that delivers the same value at every read.\<close>

definition adc_const :: "u8 \<Rightarrow> nat \<Rightarrow> u8" where
  "adc_const r n = r"

text \<open>A converter that delivers \<open>a\<close> at its first \<open>k\<close> reads and \<open>b\<close> afterwards.\<close>

definition adc_step :: "nat \<Rightarrow> u8 \<Rightarrow> u8 \<Rightarrow> nat \<Rightarrow> u8" where
  "adc_step k a b n = (if n < k then a else b)"

text \<open>The battery levels that the next \<open>n\<close> calls of \<open>batt_sample\<close> store, when the
  converter delivers \<open>tr\<close> and \<open>p\<close> reads have been made.\<close>

fun upcoming_levels :: "(nat \<Rightarrow> u8) \<Rightarrow> nat \<Rightarrow> nat \<Rightarrow> u8 list" where
  "upcoming_levels tr p 0 = []"
| "upcoming_levels tr p (Suc n) = batt_rescale (tr p) # upcoming_levels tr (Suc p) n"

text \<open>The two lines the setters send when both velocities are set to zero, drive first.\<close>

definition override_report :: "u8 list" where
  "override_report = map ch ''drive=0'' @ [ch CHR 0x0A] @ map ch ''steer=0'' @ [ch CHR 0x0A]"

text \<open>One pass over a countdown and its boolean, as both toggles of the loop do it, on
  the pair alone: decrement, and at zero reload the period and negate.\<close>

definition toggle_step :: "u8 \<Rightarrow> u8 \<times> u8 \<Rightarrow> u8 \<times> u8" where
  "toggle_step period cb =
    (let c1 = fst cb - 1
     in if c1 \<le> 0 then (period, lnot (snd cb)) else (c1, snd cb))"

section \<open>Formulas of the specification\<close>

text \<open>The table of the compatibility protocol as the specification words it: the pair
  (steer target, drive target) of a direction code, for a given speed.\<close>

definition dagu_table :: "nat \<Rightarrow> int \<Rightarrow> int \<times> int" where
  "dagu_table d speed =
    (if d = 0 then (0, 0)
     else if d = 1 then (0, speed)
     else if d = 2 then (0, - speed)
     else if d = 3 then (- 255, 0)
     else if d = 4 then (255, 0)
     else if d = 5 then (- 255, speed)
     else if d = 6 then (255, speed)
     else if d = 7 then (- 255, - speed)
     else (255, - speed))"

text \<open>The pair (steer, drive) that the byte of a pass leaves when it is decoded on
  velocities that are both zero: the table entry of a direction code in 0..8, and zero
  for any other byte and when there is no byte.\<close>

definition link_down_targets :: "u8 option \<Rightarrow> int \<times> int" where
  "link_down_targets r =
    (case r of
       None \<Rightarrow> (0, 0)
     | Some command \<Rightarrow>
         if drop_bit 4 command \<le> 8
         then dagu_table (unat (drop_bit 4 command)) (105 + uint (command AND 0x0f))
         else (0, 0))"

text \<open>The battery level the specification gives for a raw reading:
  \<open>clamp(0, 255, (r - 142) * 5)\<close>.\<close>

definition clamped_level :: "int \<Rightarrow> int" where
  "clamped_level r = max 0 (min 255 ((r - 142) * 5))"

section \<open>Low bytes of 16-bit values\<close>

lemma low_byte_take_bit: "(c :: i16) AND 0xff = take_bit 8 c"
proof -
  have "(0xff :: i16) = mask 8" by (simp add: mask_eq_exp_minus_1)
  then show ?thesis by (simp add: take_bit_eq_mask)
qed

lemma uint_low_byte: "uint ((c :: i16) AND 0xff) = uint c mod 256"
proof -
  have "uint (take_bit 8 c) = take_bit 8 (uint c)"
    by (rule unsigned_take_bit_eq)
  also have "\<dots> = uint c mod 256"
    by (simp add: take_bit_eq_mod)
  finally show ?thesis by (simp only: low_byte_take_bit)
qed

lemma uint_i16: "uint (c :: i16) = sint c mod 65536"
  by (simp add: uint_sint take_bit_eq_mod)

lemma uint_low_byte_sint: "uint ((c :: i16) AND 0xff) = sint c mod 256"
proof -
  have "sint c mod 65536 mod 256 = sint c mod 256"
    by (rule mod_mod_cancel) simp
  moreover have "uint (c AND 0xff) = sint c mod 65536 mod 256"
    by (subst uint_low_byte, subst uint_i16, rule refl)
  ultimately show ?thesis by simp
qed

lemma low_byte_nonneg:
  fixes c :: i16
  assumes "0 \<le> sint c" "sint c \<le> 255"
  shows "c AND 0xff = c"
proof -
  have "uint (c AND 0xff) = sint c" using assms by (simp add: uint_low_byte_sint)
  moreover have "uint c = sint c" using assms by (simp add: uint_i16)
  ultimately show ?thesis by (simp add: word_uint_eq_iff)
qed

lemma low_byte_neg:
  fixes c :: i16
  assumes "- 255 \<le> sint c" "sint c < 0"
  shows "uint (0xff - (c AND 0xff)) = - sint c - 1"
proof -
  have m: "sint c mod 256 = sint c + 256" using assms
    by presburger
  have "uint (c AND 0xff) \<le> uint (0xff :: i16)"
    using assms by (simp add: uint_low_byte_sint m)
  then have "uint (0xff - (c AND 0xff)) = uint (0xff :: i16) - uint (c AND 0xff)"
    using uint_sub_lem [of "c AND 0xff" "0xff"] by simp
  then show ?thesis by (simp add: uint_low_byte_sint m)
qed


section \<open>What each operation leaves alone\<close>

lemma uart_send_eq: "uart_send data s = s\<lparr>uart_tx := uart_tx s @ map ch data\<rparr>"
  unfolding uart_send_def
  by (induction data arbitrary: s) (simp_all add: uart_sendch_def)

lemma uart_sendch_sel [simp]:
  "uart_sendch c s = s\<lparr>uart_tx := uart_tx s @ [c]\<rparr>"
  by (rule uart_sendch_def)

lemma uart_send_sel [simp]:
  "PORTC (uart_send data s) = PORTC s"
  "PORTD (uart_send data s) = PORTD s"
  "OCR0A (uart_send data s) = OCR0A s"
  "OCR0B (uart_send data s) = OCR0B s"
  "OCR1A (uart_send data s) = OCR1A s"
  "OCR1B (uart_send data s) = OCR1B s"
  "OCR2B (uart_send data s) = OCR2B s"
  "ee_ourmagic (uart_send data s) = ee_ourmagic s"
  "ee_ourage (uart_send data s) = ee_ourage s"
  "velocity (uart_send data s) = velocity s"
  "steerposition (uart_send data s) = steerposition s"
  "battlevel (uart_send data s) = battlevel s"
  "voltagedisplaytogglecountdown (uart_send data s) = voltagedisplaytogglecountdown s"
  "voltagedisplaytogglestate (uart_send data s) = voltagedisplaytogglestate s"
  "battwarntogglecountdown (uart_send data s) = battwarntogglecountdown s"
  "battwarntogglestate (uart_send data s) = battwarntogglestate s"
  "adc_trace (uart_send data s) = adc_trace s"
  "adc_reads (uart_send data s) = adc_reads s"
  by (simp_all add: uart_send_eq)

lemma uart_sendint_sel [simp]:
  "PORTC (uart_sendint v s) = PORTC s"
  "PORTD (uart_sendint v s) = PORTD s"
  "OCR0A (uart_sendint v s) = OCR0A s"
  "OCR0B (uart_sendint v s) = OCR0B s"
  "OCR1A (uart_sendint v s) = OCR1A s"
  "OCR1B (uart_sendint v s) = OCR1B s"
  "OCR2B (uart_sendint v s) = OCR2B s"
  "ee_ourmagic (uart_sendint v s) = ee_ourmagic s"
  "ee_ourage (uart_sendint v s) = ee_ourage s"
  "velocity (uart_sendint v s) = velocity s"
  "steerposition (uart_sendint v s) = steerposition s"
  "battlevel (uart_sendint v s) = battlevel s"
  "voltagedisplaytogglecountdown (uart_sendint v s) = voltagedisplaytogglecountdown s"
  "voltagedisplaytogglestate (uart_sendint v s) = voltagedisplaytogglestate s"
  "battwarntogglecountdown (uart_sendint v s) = battwarntogglecountdown s"
  "battwarntogglestate (uart_sendint v s) = battwarntogglestate s"
  "adc_trace (uart_sendint v s) = adc_trace s"
  "adc_reads (uart_sendint v s) = adc_reads s"
  by (simp_all add: uart_sendint_def Let_def)


lemma motor_drive_set_velocity_sel [simp]:
  "velocity (motor_drive_set_velocity v s) = clamp255 v"
  "OCR1A (motor_drive_set_velocity v s) =
     (if 0 \<le>s clamp255 v then 0 else 0xff - (clamp255 v AND 0xff))"
  "OCR1B (motor_drive_set_velocity v s) =
     (if 0 \<le>s clamp255 v then clamp255 v AND 0xff else 0)"
  by (simp_all add: motor_drive_set_velocity_def Let_def motor_drive_forward_def
      motor_drive_reverse_def)

lemma motor_drive_set_velocity_frame [simp]:
  "PORTC (motor_drive_set_velocity v s) = PORTC s"
  "PORTD (motor_drive_set_velocity v s) = PORTD s"
  "OCR0A (motor_drive_set_velocity v s) = OCR0A s"
  "OCR0B (motor_drive_set_velocity v s) = OCR0B s"
  "OCR2B (motor_drive_set_velocity v s) = OCR2B s"
  "ee_ourmagic (motor_drive_set_velocity v s) = ee_ourmagic s"
  "ee_ourage (motor_drive_set_velocity v s) = ee_ourage s"
  "steerposition (motor_drive_set_velocity v s) = steerposition s"
  "battlevel (motor_drive_set_velocity v s) = battlevel s"
  "voltagedisplaytogglecountdown (motor_drive_set_velocity v s) = voltagedisplaytogglecountdown s"
  "voltagedisplaytogglestate (motor_drive_set_velocity v s) = voltagedisplaytogglestate s"
  "battwarntogglecountdown (motor_drive_set_velocity v s) = battwarntogglecountdown s"
  "battwarntogglestate (motor_drive_set_velocity v s) = battwarntogglestate s"
  "adc_trace (motor_drive_set_velocity v s) = adc_trace s"
  "adc_reads (motor_drive_set_velocity v s) = adc_reads s"
  by (simp_all add: motor_drive_set_velocity_def Let_def motor_drive_forward_def
      motor_drive_reverse_def)

lemma motor_steer_set_velocity_sel [simp]:
  "steerposition (motor_steer_set_velocity v s) = clamp255 v"
  "OCR0A (motor_steer_set_velocity v s) =
     (if 0 \<le>s clamp255 v then ucast (clamp255 v AND 0xff) else 0)"
  "OCR0B (motor_steer_set_velocity v s) =
     (if 0 \<le>s clamp255 v then 0 else ucast (0xff - (clamp255 v AND 0xff)))"
  by (simp_all add: motor_steer_set_velocity_def Let_def motor_steer_right_def
      motor_steer_left_def)

lemma motor_steer_set_velocity_frame [simp]:
  "PORTC (motor_steer_set_velocity v s) = PORTC s"
  "PORTD (motor_steer_set_velocity v s) = PORTD s"
  "OCR1A (motor_steer_set_velocity v s) = OCR1A s"
  "OCR1B (motor_steer_set_velocity v s) = OCR1B s"
  "OCR2B (motor_steer_set_velocity v s) = OCR2B s"
  "ee_ourmagic (motor_steer_set_velocity v s) = ee_ourmagic s"
  "ee_ourage (motor_steer_set_velocity v s) = ee_ourage s"
  "velocity (motor_steer_set_velocity v s) = velocity s"
  "battlevel (motor_steer_set_velocity v s) = battlevel s"
  "voltagedisplaytogglecountdown (motor_steer_set_velocity v s) = voltagedisplaytogglecountdown s"
  "voltagedisplaytogglestate (motor_steer_set_velocity v s) = voltagedisplaytogglestate s"
  "battwarntogglecountdown (motor_steer_set_velocity v s) = battwarntogglecountdown s"
  "battwarntogglestate (motor_steer_set_velocity v s) = battwarntogglestate s"
  "adc_trace (motor_steer_set_velocity v s) = adc_trace s"
  "adc_reads (motor_steer_set_velocity v s) = adc_reads s"
  by (simp_all add: motor_steer_set_velocity_def Let_def motor_steer_right_def
      motor_steer_left_def)

lemma sint_clamp255: "sint (clamp255 n) = max (- 255) (min 255 (sint n))"
  by (simp add: clamp255_def Let_def word_sless_alt)

lemma clamp255_id:
  assumes "- 255 \<le> sint v" "sint v \<le> 255"
  shows "clamp255 v = v"
  using assms by (simp add: clamp255_def Let_def word_sless_alt)

lemma clamp255_presets [simp]: "clamp255 0 = 0" "clamp255 255 = 255" "clamp255 (- 255) = - 255"
  by (simp_all add: clamp255_id)

lemma sle_zero_iff: "(0 \<le>s (c :: i16)) = (0 \<le> sint c)"
  by (simp add: word_sle_eq)

section \<open>The actuation mapper: duty channels\<close>

text \<open>
  C2, as stated: for every velocity in [-255, 255], \<open>motor_drive_set_velocity\<close> leaves
  exactly one of \<open>OCR1A\<close>, \<open>OCR1B\<close> non-zero. At velocity 0 it leaves both at zero.
\<close>

theorem drive_duty_exactly_one_counterexample:
  "\<not> ((OCR1A (motor_drive_set_velocity 0 (initial_state (adc_const 0))) \<noteq> 0)
      \<noteq> (OCR1B (motor_drive_set_velocity 0 (initial_state (adc_const 0))) \<noteq> 0))"
  by (simp add: clamp255_id sle_zero_iff)

text \<open>
  C2, amended: for every velocity in [-255, 255], \<open>motor_drive_set_velocity\<close> leaves at
  most one of \<open>OCR1A\<close>, \<open>OCR1B\<close> non-zero, and it leaves one of them non-zero exactly
  when the velocity is neither 0 nor -1.
\<close>

theorem drive_duty_channels:
  assumes "- 255 \<le> sint v" and "sint v \<le> 255"
  shows "(OCR1A (motor_drive_set_velocity v s) = 0 \<or> OCR1B (motor_drive_set_velocity v s) = 0)
    \<and> ((OCR1A (motor_drive_set_velocity v s) \<noteq> 0 \<or> OCR1B (motor_drive_set_velocity v s) \<noteq> 0)
         = (sint v \<noteq> 0 \<and> sint v \<noteq> - 1))"
proof (cases "0 \<le> sint v")
  case True
  then have "v AND 0xff = v" using assms by (simp add: low_byte_nonneg)
  moreover have "(v = 0) = (sint v = 0)" by (simp add: signed_eq_0_iff)
  ultimately show ?thesis using True assms by (simp add: clamp255_id sle_zero_iff)
next
  case False
  then have "uint (0xff - (v AND 0xff)) = - sint v - 1"
    using assms by (simp add: low_byte_neg)
  moreover have "(0xff - (v AND 0xff) = 0) = (uint (0xff - (v AND 0xff)) = 0)"
    by (simp add: uint_0_iff)
  ultimately show ?thesis using False assms by (simp add: clamp255_id sle_zero_iff)
qed

theorem drive_duty_channels_witness:
  "- 255 \<le> sint (100 :: i16) \<and> sint (100 :: i16) \<le> 255
   \<and> (OCR1A (motor_drive_set_velocity 100 (initial_state (adc_const 0))) = 0
      \<or> OCR1B (motor_drive_set_velocity 100 (initial_state (adc_const 0))) = 0)
   \<and> ((OCR1A (motor_drive_set_velocity 100 (initial_state (adc_const 0))) \<noteq> 0
      \<or> OCR1B (motor_drive_set_velocity 100 (initial_state (adc_const 0))) \<noteq> 0)
       = (sint (100 :: i16) \<noteq> 0 \<and> sint (100 :: i16) \<noteq> - 1))"
  using drive_duty_channels [of 100 "initial_state (adc_const 0)"] by simp

lemma uint_ucast_low:
  fixes w :: i16
  assumes "uint w \<le> 255"
  shows "uint (ucast w :: u8) = uint w"
  using assms by (simp add: unsigned_ucast_eq take_bit_eq_mod)

text \<open>
  C9: for every velocity in [-255, -1], both setters write 0 to the forward/right channel
  (\<open>OCR1B\<close>, \<open>OCR0A\<close>) and \<open>255 - (v & 0xFF)\<close> to the reverse/left channel
  (\<open>OCR1A\<close>, \<open>OCR0B\<close>); on integers \<open>v & 0xFF\<close> is \<open>sint v mod 256\<close>.
\<close>

theorem reverse_left_duty:
  assumes "- 255 \<le> sint v" and "sint v \<le> - 1"
  shows "OCR1B (motor_drive_set_velocity v s) = 0
    \<and> OCR1A (motor_drive_set_velocity v s) = 0xff - (v AND 0xff)
    \<and> uint (OCR1A (motor_drive_set_velocity v s)) = 255 - sint v mod 256
    \<and> OCR0A (motor_steer_set_velocity v s) = 0
    \<and> OCR0B (motor_steer_set_velocity v s) = ucast (0xff - (v AND 0xff))
    \<and> uint (OCR0B (motor_steer_set_velocity v s)) = 255 - sint v mod 256"
proof -
  have c: "clamp255 v = v" using assms by (simp add: clamp255_id)
  have n: "\<not> 0 \<le>s v" using assms by (simp add: sle_zero_iff)
  have m: "sint v mod 256 = sint v + 256" using assms by presburger
  have d: "uint (0xff - (v AND 0xff)) = 255 - sint v mod 256"
    using assms by (simp add: low_byte_neg m)
  then have "uint (0xff - (v AND 0xff)) \<le> 255" using assms m by simp
  then have "uint (ucast (0xff - (v AND 0xff)) :: u8) = 255 - sint v mod 256"
    using d by (simp only: uint_ucast_low)
  then show ?thesis using c n d by simp
qed

theorem reverse_left_duty_witness:
  "uint (OCR1A (motor_drive_set_velocity (- 1) (initial_state (adc_const 0)))) = 0
   \<and> uint (OCR1A (motor_drive_set_velocity (- 128) (initial_state (adc_const 0)))) = 127
   \<and> uint (OCR1A (motor_drive_set_velocity (- 255) (initial_state (adc_const 0)))) = 254
   \<and> uint (OCR0B (motor_steer_set_velocity (- 1) (initial_state (adc_const 0)))) = 0
   \<and> uint (OCR0B (motor_steer_set_velocity (- 128) (initial_state (adc_const 0)))) = 127
   \<and> uint (OCR0B (motor_steer_set_velocity (- 255) (initial_state (adc_const 0)))) = 254
   \<and> OCR1B (motor_drive_set_velocity (- 128) (initial_state (adc_const 0))) = 0
   \<and> OCR0A (motor_steer_set_velocity (- 128) (initial_state (adc_const 0))) = 0"
  using reverse_left_duty [of "- 1" "initial_state (adc_const 0)"]
    reverse_left_duty [of "- 128" "initial_state (adc_const 0)"]
    reverse_left_duty [of "- 255" "initial_state (adc_const 0)"]
  by simp

section \<open>The battery monitor\<close>

lemma u8_le_255: "\<not> (255 :: u8) < x"
proof -
  have "(255 :: u8) = - 1" by simp
  then show ?thesis by (simp only: word_n1_ge not_less)
qed

lemma batt_rescale_eq: "batt_rescale r = (r - 142) * 5"
  by (simp add: batt_rescale_def Let_def u8_le_255)

text \<open>On the readings 142 to 193 the stored level is the level of the formula.\<close>

lemma batt_rescale_in_band:
  assumes "142 \<le> uint r" and "uint r \<le> 193"
  shows "uint (batt_rescale r) = clamped_level (uint r)"
proof -
  have "uint (142 :: u8) \<le> uint r" using assms by simp
  then have d: "uint (r - 142) = uint r - 142"
    using uint_sub_lem [where x = r and y = 142] by simp
  then have "uint (r - 142) * uint (5 :: u8) < 2 ^ LENGTH(8)"
    using assms by simp
  then have "uint ((r - 142) * 5) = uint (r - 142) * uint (5 :: u8)"
    by (simp only: uint_mult_lem)
  then show ?thesis
    using assms d by (simp add: batt_rescale_eq clamped_level_def)
qed

text \<open>
  C3: \<open>batt_sample\<close> stores \<open>clamp(0, 255, (r - 142) * 5)\<close>. The code computes in a
  \<open>uint8_t\<close>, where neither of its two comparisons can hold: at the reading 100 it
  stores 46 where the formula gives 0, and at 194 it stores 4 where the formula gives 255.
\<close>

theorem batt_sample_wraps:
  "uint (battlevel (batt_sample (initial_state (adc_const 100)))) = 46
   \<and> clamped_level 100 = 0
   \<and> uint (battlevel (batt_sample (initial_state (adc_const 194)))) = 4
   \<and> clamped_level 194 = 255"
  by (simp add: batt_sample_def batt_rescale_eq initial_state_def adc_const_def
      clamped_level_def)

section \<open>The compatibility protocol\<close>

lemma direction_eq: "drop_bit 4 ((command :: u8) AND 0xf0) = drop_bit 4 command"
proof -
  have "unat (drop_bit 4 command) = drop_bit 4 (unat command)"
    by (rule unat_drop_bit_eq)
  also have "\<dots> = unat command div 16"
    by (simp add: drop_bit_eq_div)
  also have "\<dots> < 16"
    using unsigned_less [of command, where ?'a = nat] by simp
  finally have "unat (drop_bit 4 command) < 2 ^ 4"
    by simp
  then have "drop_bit 4 command < 2 ^ 4"
    by (simp add: word_less_nat_alt)
  then have "drop_bit 4 command AND mask 4 = drop_bit 4 command"
    by (rule less_mask_eq)
  moreover have "mask 4 = (15 :: u8)"
    by (simp add: mask_eq_exp_minus_1)
  ultimately have "drop_bit 4 command AND 15 = drop_bit 4 command"
    by simp
  then show ?thesis
    by simp
qed

lemma modifier_le: "uint ((command :: u8) AND 0x0f) \<le> 15"
proof -
  have "command AND 0x0f \<le> 0x0f" by (rule word_and_le1)
  then show ?thesis by (simp add: word_le_def)
qed

lemma uint_speed: "uint (105 + ((command :: u8) AND 0x0f)) = 105 + uint (command AND 0x0f)"
proof -
  have "uint (105 :: u8) + uint (command AND 0x0f) < 2 ^ LENGTH(8)"
    using modifier_le [of command] by simp
  then have "uint (105 + (command AND 0x0f)) = uint (105 :: u8) + uint (command AND 0x0f)"
    by (simp only: uint_add_lem)
  then show ?thesis by simp
qed

lemma sint_speed:
  "sint (ucast (105 + ((command :: u8) AND 0x0f) :: u8) :: i16) = 105 + uint (command AND 0x0f)"
  using modifier_le [of command]
  by (simp only: signed_ucast_eq uint_speed) (simp add: signed_take_bit_int_eq_self)

lemma sint_neg_speed:
  "sint (- (ucast (105 + ((command :: u8) AND 0x0f) :: u8) :: i16))
     = - (105 + uint (command AND 0x0f))"
proof -
  let ?k = "- (105 + uint (command AND 0x0f))"
  have "0 \<le> uint (command AND 0x0f)" by simp
  then have b: "- 32768 \<le> ?k \<and> ?k < 32768"
    using modifier_le [of command] by linarith
  have "signed_take_bit 15 ?k = ?k"
    by (rule signed_take_bit_int_eq_self) (use b in simp_all)
  then show ?thesis
    by (simp only: sint_word_ariths sint_speed) simp
qed

lemma u8_le_8_cases:
  assumes "(d :: u8) \<le> 8"
  shows "d = 0 \<or> d = 1 \<or> d = 2 \<or> d = 3 \<or> d = 4 \<or> d = 5 \<or> d = 6 \<or> d = 7 \<or> d = 8"
proof -
  have "unat d \<le> 8" using assms by (simp add: word_le_nat_alt)
  then have "unat d = 0 \<or> unat d = 1 \<or> unat d = 2 \<or> unat d = 3 \<or> unat d = 4
      \<or> unat d = 5 \<or> unat d = 6 \<or> unat d = 7 \<or> unat d = 8"
    by linarith
  then show ?thesis by (simp add: word_unat_eq_iff)
qed

text \<open>
  C6: a command byte whose high nibble is a direction code in 0..8 sets steer and drive
  as the table says, with speed 105 plus the low nibble; 0x19 gives steer 0 and drive
  114, 0x5A gives steer -255 and drive 115.
\<close>

theorem compat_table:
  assumes "drop_bit 4 command \<le> 8"
  shows "(sint (steerposition (handle_char_compat_dagu command s)),
          sint (velocity (handle_char_compat_dagu command s)))
         = dagu_table (unat (drop_bit 4 command)) (105 + uint (command AND 0x0f))"
proof -
  have "0 \<le> uint (command AND 0x0f)" by simp
  then have m: "min 255 (- 105 - uint (command AND 0x0f)) = - 105 - uint (command AND 0x0f)"
    by linarith
  show ?thesis
    using u8_le_8_cases [OF assms] modifier_le [of command]
    by (elim disjE)
      (simp_all add: handle_char_compat_dagu_def Let_def direction_eq dagu_table_def
        sint_clamp255 sint_speed sint_neg_speed m del: drop_bit_and)
qed

theorem compat_table_witness:
  "drop_bit 4 (0x19 :: u8) \<le> 8 \<and> drop_bit 4 (0x5A :: u8) \<le> 8
   \<and> sint (steerposition (handle_char_compat_dagu 0x19 (initial_state (adc_const 0)))) = 0
   \<and> sint (velocity (handle_char_compat_dagu 0x19 (initial_state (adc_const 0)))) = 114
   \<and> sint (steerposition (handle_char_compat_dagu 0x5A (initial_state (adc_const 0)))) = - 255
   \<and> sint (velocity (handle_char_compat_dagu 0x5A (initial_state (adc_const 0)))) = 115"
  using compat_table [of "0x19" "initial_state (adc_const 0)"]
    compat_table [of "0x5A" "initial_state (adc_const 0)"]
  by (simp add: dagu_table_def)

text \<open>
  C7: a command byte whose high nibble is above 8 changes nothing: the state after the
  decoder, velocities, duty registers and transmitted bytes included, is the state before.
\<close>

theorem compat_out_of_range_ignored:
  assumes "8 < drop_bit 4 command"
  shows "handle_char_compat_dagu command s = s"
proof -
  have "drop_bit 4 command \<notin> {0, 1, 2, 3, 4, 5, 6, 7, 8}"
    using assms by auto
  then show ?thesis
    by (simp add: handle_char_compat_dagu_def Let_def direction_eq del: drop_bit_and)
qed

theorem compat_out_of_range_ignored_witness:
  "8 < drop_bit 4 (0x9F :: u8)
   \<and> handle_char_compat_dagu 0x9F (initial_state (adc_const 0)) = initial_state (adc_const 0)"
  using compat_out_of_range_ignored [of "0x9F" "initial_state (adc_const 0)"]
  by simp

section \<open>The direct protocol\<close>

lemma sint_plus5:
  assumes "- 255 \<le> sint (v :: i16)" and "sint v \<le> 255"
  shows "sint (v + 5) = sint v + 5" and "sint (v - 5) = sint v - 5"
proof -
  have "signed_take_bit 15 (sint v + 5) = sint v + 5"
    by (rule signed_take_bit_int_eq_self) (use assms in simp_all)
  then show "sint (v + 5) = sint v + 5"
    by (simp only: sint_word_ariths) simp
  have "signed_take_bit 15 (sint v - 5) = sint v - 5"
    by (rule signed_take_bit_int_eq_self) (use assms in simp_all)
  then show "sint (v - 5) = sint v - 5"
    by (simp only: sint_word_ariths) simp
qed

lemma handle_char_p: "handle_char (ch CHR ''p'') s = motor_drive_set_velocity (velocity s + 5) s"
  by (simp add: handle_char_def)

lemma handle_char_u: "handle_char (ch CHR ''u'') s = motor_drive_set_velocity (velocity s - 5) s"
  by (simp add: handle_char_def)

lemma velocity_p_step:
  assumes "- 255 \<le> sint (velocity s)" and "sint (velocity s) \<le> 255"
  shows "sint (velocity (handle_char (ch CHR ''p'') s)) = min (sint (velocity s) + 5) 255"
  using assms unfolding handle_char_p by (simp add: sint_clamp255 sint_plus5)

lemma velocity_u_step:
  assumes "- 255 \<le> sint (velocity s)" and "sint (velocity s) \<le> 255"
  shows "sint (velocity (handle_char (ch CHR ''u'') s)) = max (sint (velocity s) - 5) (- 255)"
  using assms unfolding handle_char_u by (simp add: sint_clamp255 sint_plus5)

lemma velocity_p_iter:
  assumes "- 255 \<le> sint (velocity s)" and "sint (velocity s) \<le> 255"
  shows "sint (velocity ((handle_char (ch CHR ''p'') ^^ n) s))
           = min (sint (velocity s) + 5 * int n) 255"
proof (induction n)
  case 0
  then show ?case using assms by simp
next
  case (Suc n)
  let ?t = "(handle_char (ch CHR ''p'') ^^ n) s"
  have "- 255 \<le> sint (velocity ?t)" and "sint (velocity ?t) \<le> 255"
    using Suc assms by simp_all
  then have "sint (velocity (handle_char (ch CHR ''p'') ?t)) = min (sint (velocity ?t) + 5) 255"
    by (rule velocity_p_step)
  then show ?case using Suc by simp
qed

lemma velocity_u_iter:
  assumes "- 255 \<le> sint (velocity s)" and "sint (velocity s) \<le> 255"
  shows "sint (velocity ((handle_char (ch CHR ''u'') ^^ n) s))
           = max (sint (velocity s) - 5 * int n) (- 255)"
proof (induction n)
  case 0
  then show ?case using assms by simp
next
  case (Suc n)
  let ?t = "(handle_char (ch CHR ''u'') ^^ n) s"
  have "- 255 \<le> sint (velocity ?t)" and "sint (velocity ?t) \<le> 255"
    using Suc assms by simp_all
  then have "sint (velocity (handle_char (ch CHR ''u'') ?t)) = max (sint (velocity ?t) - 5) (- 255)"
    by (rule velocity_u_step)
  then show ?case using Suc by simp
qed

text \<open>
  C10: with the drive velocity in [-255, 255], \<open>p\<close> stores \<open>min (velocity + 5) 255\<close> and
  \<open>u\<close> stores \<open>max (velocity - 5) (-255)\<close>; \<open>n\<close> increments in a row store
  \<open>min (velocity + 5 n) 255\<close>, \<open>n\<close> decrements \<open>max (velocity - 5 n) (-255)\<close>.
\<close>

theorem increment_decrement_saturate:
  assumes "- 255 \<le> sint (velocity s)" and "sint (velocity s) \<le> 255"
  shows "sint (velocity (handle_char (ch CHR ''p'') s)) = min (sint (velocity s) + 5) 255
    \<and> sint (velocity (handle_char (ch CHR ''u'') s)) = max (sint (velocity s) - 5) (- 255)
    \<and> sint (velocity ((handle_char (ch CHR ''p'') ^^ n) s))
          = min (sint (velocity s) + 5 * int n) 255
    \<and> sint (velocity ((handle_char (ch CHR ''u'') ^^ n) s))
          = max (sint (velocity s) - 5 * int n) (- 255)"
  using assms velocity_p_step velocity_u_step velocity_p_iter velocity_u_iter by simp

theorem increment_decrement_saturate_witness:
  "- 255 \<le> sint (velocity (initial_state (adc_const 0)))
   \<and> sint (velocity (initial_state (adc_const 0))) \<le> 255
   \<and> sint (velocity (handle_char (ch CHR ''p'') (initial_state (adc_const 0)))) = 5
   \<and> sint (velocity (handle_char (ch CHR ''u'') (initial_state (adc_const 0)))) = - 5
   \<and> sint (velocity ((handle_char (ch CHR ''p'') ^^ 60) (initial_state (adc_const 0)))) = 255
   \<and> sint (velocity ((handle_char (ch CHR ''u'') ^^ 60) (initial_state (adc_const 0)))) = - 255"
  using increment_decrement_saturate [of "initial_state (adc_const 0)" 60]
  by (simp add: initial_state_def)

section \<open>The sustained-low check\<close>

lemma batt_sample_sel [simp]:
  "battlevel (batt_sample s) = batt_rescale (adc_trace s (adc_reads s))"
  "adc_reads (batt_sample s) = Suc (adc_reads s)"
  "adc_trace (batt_sample s) = adc_trace s"
  "velocity (batt_sample s) = velocity s"
  "steerposition (batt_sample s) = steerposition s"
  "voltagedisplaytogglecountdown (batt_sample s) = voltagedisplaytogglecountdown s"
  "voltagedisplaytogglestate (batt_sample s) = voltagedisplaytogglestate s"
  "battwarntogglecountdown (batt_sample s) = battwarntogglecountdown s"
  "battwarntogglestate (batt_sample s) = battwarntogglestate s"
  by (simp_all add: batt_sample_def)

lemma batt_low_loop_count:
  "fst (batt_low_loop n threshold warn s)
     = warn + of_nat (length (filter (\<lambda>l. l < threshold)
                (upcoming_levels (adc_trace s) (adc_reads s) n)))"
  by (induction n arbitrary: warn s) (simp_all add: Let_def)

lemma length_upcoming_levels [simp]: "length (upcoming_levels tr p n) = n"
  by (induction n arbitrary: p) simp_all

lemma small_count_above_17:
  assumes "k \<le> 20"
  shows "((of_nat k :: u8) > 17) = (18 \<le> k)"
proof -
  have "unat (of_nat k :: u8) = k"
    using assms by (simp add: unsigned_of_nat take_bit_nat_eq_self)
  then show ?thesis
    by (auto simp add: word_less_nat_alt)
qed

text \<open>
  C4: for every threshold and whatever the next 20 samples are, \<open>batt_low_consistently\<close>
  returns true (non-zero) exactly when at least 18 of the 20 sampled levels are strictly
  below the threshold; with 17 or fewer it returns false.
\<close>

theorem sustained_low_iff:
  "(fst (batt_low_consistently threshold s) \<noteq> 0)
     = (18 \<le> length (filter (\<lambda>l. l < threshold)
               (upcoming_levels (adc_trace s) (adc_reads s) 20)))"
proof -
  let ?ls = "upcoming_levels (adc_trace s) (adc_reads s) 20"
  let ?k = "length (filter (\<lambda>l. l < threshold) ?ls)"
  have "?k \<le> length ?ls" by (rule length_filter_le)
  then have k: "?k \<le> 20" by simp
  have "fst (batt_low_loop 20 threshold 0 (uart_send ''batt long check:'' s)) = of_nat ?k"
    by (simp add: batt_low_loop_count)
  then have "fst (batt_low_consistently threshold s) = (if (of_nat ?k :: u8) > 17 then 1 else 0)"
    by (simp add: batt_low_consistently_def Let_def case_prod_unfold)
  then show ?thesis
    using small_count_above_17 [OF k] by simp
qed

theorem sustained_low_iff_witness:
  "fst (batt_low_consistently 10 (initial_state (adc_step 18 142 255))) \<noteq> 0
   \<and> fst (batt_low_consistently 10 (initial_state (adc_step 17 142 255))) = 0"
proof -
  have a: "length (filter (\<lambda>l. l < 10) (upcoming_levels (adc_step 18 142 255) 0 20)) = 18"
    by code_simp
  have b: "length (filter (\<lambda>l. l < 10) (upcoming_levels (adc_step 17 142 255) 0 20)) = 17"
    by code_simp
  show ?thesis
    using sustained_low_iff [of 10 "initial_state (adc_step 18 142 255)"]
      sustained_low_iff [of 10 "initial_state (adc_step 17 142 255)"]
    by (simp add: initial_state_def a b)
qed

section \<open>The main loop: what each block leaves alone\<close>

lemma led_sel_3on [simp]:
  "velocity (led3on s) = velocity s"
  "steerposition (led3on s) = steerposition s"
  "battlevel (led3on s) = battlevel s"
  "voltagedisplaytogglecountdown (led3on s) = voltagedisplaytogglecountdown s"
  "voltagedisplaytogglestate (led3on s) = voltagedisplaytogglestate s"
  "battwarntogglecountdown (led3on s) = battwarntogglecountdown s"
  "battwarntogglestate (led3on s) = battwarntogglestate s"
  "adc_trace (led3on s) = adc_trace s"
  "adc_reads (led3on s) = adc_reads s"
  by (simp_all add: led3on_def)

lemma led_sel_3off [simp]:
  "velocity (led3off s) = velocity s"
  "steerposition (led3off s) = steerposition s"
  "battlevel (led3off s) = battlevel s"
  "voltagedisplaytogglecountdown (led3off s) = voltagedisplaytogglecountdown s"
  "voltagedisplaytogglestate (led3off s) = voltagedisplaytogglestate s"
  "battwarntogglecountdown (led3off s) = battwarntogglecountdown s"
  "battwarntogglestate (led3off s) = battwarntogglestate s"
  "adc_trace (led3off s) = adc_trace s"
  "adc_reads (led3off s) = adc_reads s"
  by (simp_all add: led3off_def)

lemma led_sel_4on [simp]:
  "velocity (led4on s) = velocity s"
  "steerposition (led4on s) = steerposition s"
  "battlevel (led4on s) = battlevel s"
  "voltagedisplaytogglecountdown (led4on s) = voltagedisplaytogglecountdown s"
  "voltagedisplaytogglestate (led4on s) = voltagedisplaytogglestate s"
  "battwarntogglecountdown (led4on s) = battwarntogglecountdown s"
  "battwarntogglestate (led4on s) = battwarntogglestate s"
  "adc_trace (led4on s) = adc_trace s"
  "adc_reads (led4on s) = adc_reads s"
  by (simp_all add: led4on_def)

lemma led_sel_4off [simp]:
  "velocity (led4off s) = velocity s"
  "steerposition (led4off s) = steerposition s"
  "battlevel (led4off s) = battlevel s"
  "voltagedisplaytogglecountdown (led4off s) = voltagedisplaytogglecountdown s"
  "voltagedisplaytogglestate (led4off s) = voltagedisplaytogglestate s"
  "battwarntogglecountdown (led4off s) = battwarntogglecountdown s"
  "battwarntogglestate (led4off s) = battwarntogglestate s"
  "adc_trace (led4off s) = adc_trace s"
  "adc_reads (led4off s) = adc_reads s"
  by (simp_all add: led4off_def)

lemma handle_char_compat_dagu_frame [simp]:
  "battlevel (handle_char_compat_dagu command s) = battlevel s"
  "voltagedisplaytogglecountdown (handle_char_compat_dagu command s) = voltagedisplaytogglecountdown s"
  "voltagedisplaytogglestate (handle_char_compat_dagu command s) = voltagedisplaytogglestate s"
  "battwarntogglecountdown (handle_char_compat_dagu command s) = battwarntogglecountdown s"
  "battwarntogglestate (handle_char_compat_dagu command s) = battwarntogglestate s"
  "adc_trace (handle_char_compat_dagu command s) = adc_trace s"
  "adc_reads (handle_char_compat_dagu command s) = adc_reads s"
  by (simp_all add: handle_char_compat_dagu_def Let_def)

lemma batt_announce_sel [simp]:
  "velocity (batt_announce s) = velocity s"
  "steerposition (batt_announce s) = steerposition s"
  "battlevel (batt_announce s) = battlevel s"
  "voltagedisplaytogglecountdown (batt_announce s) = voltagedisplaytogglecountdown s"
  "voltagedisplaytogglestate (batt_announce s) = voltagedisplaytogglestate s"
  "battwarntogglecountdown (batt_announce s) = battwarntogglecountdown s"
  "battwarntogglestate (batt_announce s) = battwarntogglestate s"
  "adc_trace (batt_announce s) = adc_trace s"
  "adc_reads (batt_announce s) = adc_reads s"
  by (simp_all add: batt_announce_def)

lemma batt_low_loop_frame [simp]:
  "velocity (snd (batt_low_loop n threshold warn s)) = velocity s"
  "steerposition (snd (batt_low_loop n threshold warn s)) = steerposition s"
  "voltagedisplaytogglecountdown (snd (batt_low_loop n threshold warn s)) = voltagedisplaytogglecountdown s"
  "voltagedisplaytogglestate (snd (batt_low_loop n threshold warn s)) = voltagedisplaytogglestate s"
  "battwarntogglecountdown (snd (batt_low_loop n threshold warn s)) = battwarntogglecountdown s"
  "battwarntogglestate (snd (batt_low_loop n threshold warn s)) = battwarntogglestate s"
  "adc_trace (snd (batt_low_loop n threshold warn s)) = adc_trace s"
  by (induction n arbitrary: warn s) (simp_all add: Let_def)

lemma batt_low_consistently_frame [simp]:
  "velocity (snd (batt_low_consistently threshold s)) = velocity s"
  "steerposition (snd (batt_low_consistently threshold s)) = steerposition s"
  "voltagedisplaytogglecountdown (snd (batt_low_consistently threshold s)) = voltagedisplaytogglecountdown s"
  "voltagedisplaytogglestate (snd (batt_low_consistently threshold s)) = voltagedisplaytogglestate s"
  "battwarntogglecountdown (snd (batt_low_consistently threshold s)) = battwarntogglecountdown s"
  "battwarntogglestate (snd (batt_low_consistently threshold s)) = battwarntogglestate s"
  "adc_trace (snd (batt_low_consistently threshold s)) = adc_trace s"
  by (simp_all add: batt_low_consistently_def Let_def case_prod_unfold)

lemma link_check_down [simp]:
  assumes "\<not> PIND4 inp"
  shows "velocity (link_check inp s) = 0" and "steerposition (link_check inp s) = 0"
  using assms by (simp_all add: link_check_def)

lemma link_check_frame [simp]:
  "battlevel (link_check inp s) = battlevel s"
  "voltagedisplaytogglecountdown (link_check inp s) = voltagedisplaytogglecountdown s"
  "voltagedisplaytogglestate (link_check inp s) = voltagedisplaytogglestate s"
  "battwarntogglecountdown (link_check inp s) = battwarntogglecountdown s"
  "battwarntogglestate (link_check inp s) = battwarntogglestate s"
  "adc_trace (link_check inp s) = adc_trace s"
  "adc_reads (link_check inp s) = adc_reads s"
  by (simp_all add: link_check_def)

lemma command_ingest_frame [simp]:
  "battlevel (command_ingest inp s) = battlevel s"
  "voltagedisplaytogglecountdown (command_ingest inp s) = voltagedisplaytogglecountdown s"
  "voltagedisplaytogglestate (command_ingest inp s) = voltagedisplaytogglestate s"
  "battwarntogglecountdown (command_ingest inp s) = battwarntogglecountdown s"
  "battwarntogglestate (command_ingest inp s) = battwarntogglestate s"
  "adc_trace (command_ingest inp s) = adc_trace s"
  "adc_reads (command_ingest inp s) = adc_reads s"
  by (simp_all add: command_ingest_def split: option.split)

lemma command_ingest_none [simp]: "rx inp = None \<Longrightarrow> command_ingest inp s = s"
  by (simp add: command_ingest_def)

lemma voltagedisplay_step_frame [simp]:
  "velocity (voltagedisplay_step s) = velocity s"
  "steerposition (voltagedisplay_step s) = steerposition s"
  "battwarntogglecountdown (voltagedisplay_step s) = battwarntogglecountdown s"
  "battwarntogglestate (voltagedisplay_step s) = battwarntogglestate s"
  by (simp_all add: voltagedisplay_step_def Let_def)

lemma battwarn_step_frame [simp]:
  "velocity (battwarn_step s) = velocity s"
  "steerposition (battwarn_step s) = steerposition s"
  "battlevel (battwarn_step s) = battlevel s"
  "voltagedisplaytogglecountdown (battwarn_step s) = voltagedisplaytogglecountdown s"
  "voltagedisplaytogglestate (battwarn_step s) = voltagedisplaytogglestate s"
  by (simp_all add: battwarn_step_def Let_def)

lemma batt_critical_check_frame [simp]:
  "voltagedisplaytogglecountdown (batt_critical_check s) = voltagedisplaytogglecountdown s"
  "voltagedisplaytogglestate (batt_critical_check s) = voltagedisplaytogglestate s"
  "battwarntogglecountdown (batt_critical_check s) = battwarntogglecountdown s"
  "battwarntogglestate (batt_critical_check s) = battwarntogglestate s"
  by (simp_all add: batt_critical_check_def Let_def case_prod_unfold)

lemma batt_critical_check_velocity:
  "velocity (batt_critical_check s) =
     (if battlevel s < battlowthreshold
         \<and> fst (batt_low_consistently battlowthreshold (batt_announce s)) \<noteq> 0
      then 0 else velocity s)"
  "steerposition (batt_critical_check s) =
     (if battlevel s < battlowthreshold
         \<and> fst (batt_low_consistently battlowthreshold (batt_announce s)) \<noteq> 0
      then 0 else steerposition s)"
  by (simp_all add: batt_critical_check_def Let_def case_prod_unfold)

lemma tick_front_velocity [simp]:
  "velocity (tick_front inp s) = velocity (command_ingest inp (link_check inp s))"
  "steerposition (tick_front inp s) = steerposition (command_ingest inp (link_check inp s))"
  by (simp_all add: tick_front_def)

section \<open>The main loop: what is sent and what is read\<close>

text \<open>Every operation only appends to the transmitted bytes; the long check reads the
  converter 20 times.\<close>

lemma uart_sendint_0: "uart_sendint 0 s = s\<lparr>uart_tx := uart_tx s @ [ch CHR ''0'']\<rparr>"
  by (simp add: uart_sendint_def Let_def)

lemma uart_tx_drive_0:
  "uart_tx (motor_drive_set_velocity 0 s) = uart_tx s @ map ch ''drive=0'' @ [ch CHR 0x0A]"
  by (simp add: motor_drive_set_velocity_def Let_def uart_send_eq uart_sendint_0
      motor_drive_forward_def motor_drive_reverse_def)

lemma uart_tx_steer_0:
  "uart_tx (motor_steer_set_velocity 0 s) = uart_tx s @ map ch ''steer=0'' @ [ch CHR 0x0A]"
  by (simp add: motor_steer_set_velocity_def Let_def uart_send_eq uart_sendint_0
      motor_steer_right_def motor_steer_left_def)

lemma uart_tx_override:
  "uart_tx (motor_steer_set_velocity 0 (motor_drive_set_velocity 0 s))
     = uart_tx s @ override_report"
  by (simp only: uart_tx_steer_0 uart_tx_drive_0 override_report_def append_assoc)

lemma uart_sendint_grows: "prefix (uart_tx s) (uart_tx (uart_sendint v s))"
  by (simp add: uart_sendint_def Let_def)

lemma uart_send_grows: "prefix (uart_tx s) (uart_tx (uart_send d s))"
  by (simp add: uart_send_eq)

lemma grows_trans:
  assumes "prefix (uart_tx a) (uart_tx b)" and "prefix (uart_tx b) (uart_tx c)"
  shows "prefix (uart_tx a) (uart_tx c)"
  using assms by (rule prefix_order.trans)

lemma motor_drive_grows: "prefix (uart_tx s) (uart_tx (motor_drive_set_velocity v s))"
proof -
  let ?a = "uart_send ''drive='' (s\<lparr>velocity := clamp255 v\<rparr>)"
  let ?b = "uart_sendint (clamp255 v) ?a"
  have "prefix (uart_tx s) (uart_tx ?a)"
    by (simp add: uart_send_eq)
  moreover have "prefix (uart_tx ?a) (uart_tx ?b)"
    by (rule uart_sendint_grows)
  ultimately have "prefix (uart_tx s) (uart_tx ?b)"
    by (rule grows_trans)
  moreover have "uart_tx (motor_drive_set_velocity v s) = uart_tx ?b @ [ch CHR 0x0A]"
    by (simp add: motor_drive_set_velocity_def Let_def motor_drive_forward_def
        motor_drive_reverse_def)
  ultimately show ?thesis
    by (simp add: prefix_def) auto
qed

lemma motor_steer_grows: "prefix (uart_tx s) (uart_tx (motor_steer_set_velocity v s))"
proof -
  let ?a = "uart_send ''steer='' (s\<lparr>steerposition := clamp255 v\<rparr>)"
  let ?b = "uart_sendint (clamp255 v) ?a"
  have "prefix (uart_tx s) (uart_tx ?a)"
    by (simp add: uart_send_eq)
  moreover have "prefix (uart_tx ?a) (uart_tx ?b)"
    by (rule uart_sendint_grows)
  ultimately have "prefix (uart_tx s) (uart_tx ?b)"
    by (rule grows_trans)
  moreover have "uart_tx (motor_steer_set_velocity v s) = uart_tx ?b @ [ch CHR 0x0A]"
    by (simp add: motor_steer_set_velocity_def Let_def motor_steer_right_def
        motor_steer_left_def)
  ultimately show ?thesis
    by (simp add: prefix_def) auto
qed

lemma drive_after_steer_grows:
  "prefix (uart_tx s) (uart_tx (motor_drive_set_velocity v (motor_steer_set_velocity w s)))"
  using motor_steer_grows motor_drive_grows by (rule grows_trans)

lemma steer_after_drive_grows:
  "prefix (uart_tx s) (uart_tx (motor_steer_set_velocity v (motor_drive_set_velocity w s)))"
  using motor_drive_grows motor_steer_grows by (rule grows_trans)

lemma handle_char_compat_dagu_grows:
  "prefix (uart_tx s) (uart_tx (handle_char_compat_dagu command s))"
  by (simp add: handle_char_compat_dagu_def Let_def drive_after_steer_grows)

lemma led_uart_tx [simp]:
  "uart_tx (led3on s) = uart_tx s" "uart_tx (led3off s) = uart_tx s"
  "uart_tx (led4on s) = uart_tx s" "uart_tx (led4off s) = uart_tx s"
  by (simp_all add: led3on_def led3off_def led4on_def led4off_def)

lemma command_ingest_grows: "prefix (uart_tx s) (uart_tx (command_ingest inp s))"
proof (cases "rx inp")
  case None
  then show ?thesis by (simp add: command_ingest_def)
next
  case (Some command)
  have "prefix (uart_tx (led4off (led4on s)))
          (uart_tx (handle_char_compat_dagu command (led4off (led4on s))))"
    by (rule handle_char_compat_dagu_grows)
  then show ?thesis using Some by (simp add: command_ingest_def)
qed

lemma step_uart_tx [simp]:
  "uart_tx (batt_sample s) = uart_tx s"
  "uart_tx (voltagedisplay_step s) = uart_tx s"
  "uart_tx (battwarn_step s) = uart_tx s"
  by (simp_all add: batt_sample_def voltagedisplay_step_def battwarn_step_def Let_def)

lemma batt_low_loop_grows:
  "prefix (uart_tx s) (uart_tx (snd (batt_low_loop n threshold warn s)))"
proof (induction n arbitrary: warn s)
  case 0
  show ?case by simp
next
  case (Suc n)
  let ?s1 = "batt_sample s"
  let ?s2 = "uart_sendint (ucast (battlevel ?s1)) (uart_send '' batt='' ?s1)"
  have "prefix (uart_tx ?s1) (uart_tx (uart_send '' batt='' ?s1))"
    by (rule uart_send_grows)
  moreover have "prefix (uart_tx (uart_send '' batt='' ?s1)) (uart_tx ?s2)"
    by (rule uart_sendint_grows)
  ultimately have a: "prefix (uart_tx s) (uart_tx ?s2)"
    using grows_trans [of ?s1 "uart_send '' batt='' ?s1" ?s2] by simp
  have b: "prefix (uart_tx s) (uart_tx ?s1)" by simp
  show ?case
    using grows_trans [OF a Suc.IH [where warn = "warn + 1" and s = ?s2]]
      grows_trans [OF b Suc.IH [where warn = warn and s = ?s1]]
    by (simp add: Let_def)
qed

lemma batt_low_consistently_tx:
  "prefix (uart_tx s @ map ch ''batt long check:'')
     (uart_tx (snd (batt_low_consistently threshold s)))"
proof -
  let ?a = "uart_send ''batt long check:'' s"
  let ?b = "snd (batt_low_loop 20 threshold 0 ?a)"
  have "prefix (uart_tx ?a) (uart_tx ?b)"
    by (rule batt_low_loop_grows)
  moreover have "prefix (uart_tx ?b) (uart_tx (uart_send ('' done.'' @ [CHR 0x0A]) ?b))"
    by (rule uart_send_grows)
  ultimately have "prefix (uart_tx ?a) (uart_tx (uart_send ('' done.'' @ [CHR 0x0A]) ?b))"
    by (rule grows_trans)
  moreover have "uart_tx ?a = uart_tx s @ map ch ''batt long check:''"
    by (simp only: uart_send_eq) simp
  moreover have "snd (batt_low_consistently threshold s) = uart_send ('' done.'' @ [CHR 0x0A]) ?b"
    by (simp add: batt_low_consistently_def Let_def case_prod_unfold)
  ultimately show ?thesis by (simp only:)
qed

lemma batt_low_consistently_grows:
  "prefix (uart_tx s) (uart_tx (snd (batt_low_consistently threshold s)))"
  using batt_low_consistently_tx [of s threshold] by (rule append_prefixD)

lemma batt_announce_grows: "prefix (uart_tx s) (uart_tx (batt_announce s))"
proof -
  let ?a = "uart_send ''batt='' s"
  let ?b = "uart_sendint (ucast (battlevel s)) ?a"
  have "prefix (uart_tx s) (uart_tx ?a)" by (rule uart_send_grows)
  moreover have "prefix (uart_tx ?a) (uart_tx ?b)" by (rule uart_sendint_grows)
  ultimately have "prefix (uart_tx s) (uart_tx ?b)" by (rule grows_trans)
  moreover have "prefix (uart_tx ?b) (uart_tx (uart_sendch (ch CHR 0x0A) ?b))" by simp
  ultimately show ?thesis unfolding batt_announce_def by (rule grows_trans)
qed

lemma batt_critical_check_grows: "prefix (uart_tx s) (uart_tx (batt_critical_check s))"
proof (cases "battlevel s < battlowthreshold")
  case False
  then show ?thesis by (simp add: batt_critical_check_def)
next
  case True
  let ?c = "snd (batt_low_consistently battlowthreshold (batt_announce s))"
  have c: "prefix (uart_tx s) (uart_tx ?c)"
    using batt_announce_grows batt_low_consistently_grows by (rule grows_trans)
  have "prefix (uart_tx (led3on ?c))
          (uart_tx (motor_steer_set_velocity 0 (motor_drive_set_velocity 0 (led3on ?c))))"
    and "prefix (uart_tx (led3off ?c))
          (uart_tx (motor_steer_set_velocity 0 (motor_drive_set_velocity 0 (led3off ?c))))"
    by (rule steer_after_drive_grows)+
  then have "prefix (uart_tx s)
          (uart_tx (motor_steer_set_velocity 0 (motor_drive_set_velocity 0 (led3on ?c))))"
    and "prefix (uart_tx s)
          (uart_tx (motor_steer_set_velocity 0 (motor_drive_set_velocity 0 (led3off ?c))))"
    using c by (auto intro: prefix_order.trans)
  then show ?thesis
    using True c by (simp add: batt_critical_check_def Let_def case_prod_unfold)
qed

lemma tick_grows_from_link_check:
  "prefix (uart_tx (link_check inp s)) (uart_tx (tick inp s))"
proof -
  let ?a = "link_check inp s"
  have "prefix (uart_tx ?a) (uart_tx (tick_front inp s))"
    using command_ingest_grows [of ?a inp] by (simp add: tick_front_def)
  moreover have "prefix (uart_tx (tick_front inp s)) (uart_tx (tick inp s))"
    unfolding tick_def by (rule batt_critical_check_grows)
  ultimately show ?thesis by (rule grows_trans)
qed

lemma batt_low_loop_reads:
  "adc_reads (snd (batt_low_loop n threshold warn s)) = adc_reads s + n"
  by (induction n arbitrary: warn s) (simp_all add: Let_def)

lemma batt_low_consistently_reads:
  "adc_reads (snd (batt_low_consistently threshold s)) = adc_reads s + 20"
  by (simp add: batt_low_consistently_def Let_def case_prod_unfold batt_low_loop_reads)

lemma batt_critical_check_low:
  assumes "battlevel s < battlowthreshold"
  shows "batt_critical_check s =
    (if fst (batt_low_consistently battlowthreshold (batt_announce s)) \<noteq> 0
     then motor_steer_set_velocity 0 (motor_drive_set_velocity 0
            (if battwarntogglestate (snd (batt_low_consistently battlowthreshold (batt_announce s))) \<noteq> 0
             then led3on (snd (batt_low_consistently battlowthreshold (batt_announce s)))
             else led3off (snd (batt_low_consistently battlowthreshold (batt_announce s)))))
     else snd (batt_low_consistently battlowthreshold (batt_announce s)))"
  using assms by (simp add: batt_critical_check_def Let_def case_prod_unfold)

text \<open>The decoder on a byte, for any state: the table entry for a direction code in
  0..8, no change otherwise.\<close>

lemma decoder_targets:
  assumes "drop_bit 4 command \<le> 8"
  shows "(sint (steerposition (handle_char_compat_dagu command s)),
          sint (velocity (handle_char_compat_dagu command s)))
         = dagu_table (unat (drop_bit 4 command)) (105 + uint (command AND 0x0f))"
proof -
  have "0 \<le> uint (command AND 0x0f)" by simp
  then have m: "min 255 (- 105 - uint (command AND 0x0f)) = - 105 - uint (command AND 0x0f)"
    by linarith
  show ?thesis
    using u8_le_8_cases [OF assms] modifier_le [of command]
    by (elim disjE)
      (simp_all add: handle_char_compat_dagu_def Let_def direction_eq dagu_table_def
        sint_clamp255 sint_speed sint_neg_speed m del: drop_bit_and)
qed

lemma decoder_ignores:
  assumes "\<not> drop_bit 4 command \<le> 8"
  shows "handle_char_compat_dagu command s = s"
proof -
  have "drop_bit 4 command \<notin> {0, 1, 2, 3, 4, 5, 6, 7, 8}"
    using assms by auto
  then show ?thesis
    by (simp add: handle_char_compat_dagu_def Let_def direction_eq del: drop_bit_and)
qed

lemma link_down_front:
  assumes "\<not> PIND4 inp"
  shows "(sint (steerposition (tick_front inp s)), sint (velocity (tick_front inp s)))
           = link_down_targets (rx inp)"
proof (cases "rx inp")
  case None
  then show ?thesis using assms by (simp add: link_down_targets_def)
next
  case (Some command)
  show ?thesis
  proof (cases "drop_bit 4 command \<le> 8")
    case True
    then show ?thesis
      using Some decoder_targets [OF True, of "led4off (led4on (link_check inp s))"]
      by (simp add: link_down_targets_def command_ingest_def)
  next
    case False
    then show ?thesis
      using Some assms decoder_ignores [OF False, of "led4off (led4on (link_check inp s))"]
      by (simp add: link_down_targets_def command_ingest_def)
  qed
qed

lemma link_down_tx:
  assumes "\<not> PIND4 inp"
  shows "prefix (uart_tx s @ override_report) (uart_tx (tick inp s))"
proof -
  have "uart_tx (link_check inp s) = uart_tx s @ override_report"
    using assms by (simp only: link_check_def if_False uart_tx_override)
  then show ?thesis
    using tick_grows_from_link_check [of inp s] by simp
qed

section \<open>Loss of the link\<close>

text \<open>
  C1, as stated: on a pass in which PD4 reads low, the pass ends with both velocities
  zero, whatever command is processed in that pass. The loop tests the pin before it reads
  the command: with the link down and the byte 0x19 received, the pass ends with drive
  velocity 114.
\<close>

theorem link_down_command_counterexample:
  "\<not> (velocity (tick \<lparr>PIND4 = False, rx = Some 0x19\<rparr> (initial_state (adc_const 255))) = 0
      \<and> steerposition (tick \<lparr>PIND4 = False, rx = Some 0x19\<rparr> (initial_state (adc_const 255))) = 0)"
  by code_simp

text \<open>
  C1, amended: on a pass in which PD4 reads low, both velocities are set to zero, and
  reported as such over the transport, before the command byte of that pass is decoded.
  The decoder then runs on zero velocities: the pass reaches the battery check with the
  table entry of a byte whose direction code is in 0..8, and with both velocities zero when
  no byte is received or the direction code is above 8; it ends with these values, or with
  zero when the battery override applies.
\<close>

theorem link_down_zeroes:
  assumes "\<not> PIND4 inp"
  shows "velocity (link_check inp s) = 0 \<and> steerposition (link_check inp s) = 0
    \<and> prefix (uart_tx s @ override_report) (uart_tx (tick inp s))
    \<and> (sint (steerposition (tick_front inp s)), sint (velocity (tick_front inp s)))
        = link_down_targets (rx inp)
    \<and> (sint (steerposition (tick inp s)), sint (velocity (tick inp s)))
        = (if battlevel (tick_front inp s) < battlowthreshold
              \<and> fst (batt_low_consistently battlowthreshold (batt_announce (tick_front inp s))) \<noteq> 0
           then (0, 0) else link_down_targets (rx inp))
    \<and> (rx inp = None \<longrightarrow> velocity (tick inp s) = 0 \<and> steerposition (tick inp s) = 0)"
proof -
  have f: "(sint (steerposition (tick_front inp s)), sint (velocity (tick_front inp s)))
             = link_down_targets (rx inp)"
    using assms by (rule link_down_front)
  have "(sint (steerposition (tick inp s)), sint (velocity (tick inp s)))
        = (if battlevel (tick_front inp s) < battlowthreshold
              \<and> fst (batt_low_consistently battlowthreshold (batt_announce (tick_front inp s))) \<noteq> 0
           then (0, 0) else link_down_targets (rx inp))"
    using f by (simp add: tick_def batt_critical_check_velocity)
  moreover have "rx inp = None \<longrightarrow> velocity (tick inp s) = 0 \<and> steerposition (tick inp s) = 0"
    using assms by (simp add: tick_def batt_critical_check_velocity)
  ultimately show ?thesis
    using assms f link_down_tx [OF assms, of s] by simp
qed

theorem link_down_zeroes_witness:
  "\<not> PIND4 \<lparr>PIND4 = False, rx = None\<rparr>
   \<and> sint (velocity (tick \<lparr>PIND4 = True, rx = Some 0x5A\<rparr> (initial_state (adc_const 255)))) = 115
   \<and> sint (steerposition (tick \<lparr>PIND4 = True, rx = Some 0x5A\<rparr> (initial_state (adc_const 255)))) = - 255
   \<and> velocity (tick \<lparr>PIND4 = False, rx = None\<rparr>
         (tick \<lparr>PIND4 = True, rx = Some 0x5A\<rparr> (initial_state (adc_const 255)))) = 0
   \<and> steerposition (tick \<lparr>PIND4 = False, rx = None\<rparr>
         (tick \<lparr>PIND4 = True, rx = Some 0x5A\<rparr> (initial_state (adc_const 255)))) = 0
   \<and> sint (velocity (tick \<lparr>PIND4 = False, rx = Some 0x9F\<rparr>
         (tick \<lparr>PIND4 = True, rx = Some 0x5A\<rparr> (initial_state (adc_const 255))))) = 0
   \<and> sint (steerposition (tick \<lparr>PIND4 = False, rx = Some 0x9F\<rparr>
         (tick \<lparr>PIND4 = True, rx = Some 0x5A\<rparr> (initial_state (adc_const 255))))) = 0
   \<and> sint (velocity (tick \<lparr>PIND4 = False, rx = Some 0x19\<rparr>
         (tick \<lparr>PIND4 = True, rx = Some 0x5A\<rparr> (initial_state (adc_const 255))))) = 114
   \<and> sint (steerposition (tick \<lparr>PIND4 = False, rx = Some 0x19\<rparr>
         (tick \<lparr>PIND4 = True, rx = Some 0x5A\<rparr> (initial_state (adc_const 255))))) = 0"
proof -
  let ?s = "tick \<lparr>PIND4 = True, rx = Some 0x5A\<rparr> (initial_state (adc_const 255))"
  let ?i1 = "\<lparr>PIND4 = False, rx = None\<rparr>"
  let ?i2 = "\<lparr>PIND4 = False, rx = Some (0x9F :: u8)\<rparr>"
  let ?i3 = "\<lparr>PIND4 = False, rx = Some (0x19 :: u8)\<rparr>"
  have a: "sint (velocity ?s) = 115" and b: "sint (steerposition ?s) = - 255"
    by code_simp+
  have n: "\<not> battlevel (tick_front ?i2 ?s) < battlowthreshold"
    "\<not> battlevel (tick_front ?i3 ?s) < battlowthreshold"
    by code_simp+
  have t: "link_down_targets (Some 0x9F) = (0, 0)" "link_down_targets (Some 0x19) = (0, 114)"
    by (simp_all add: link_down_targets_def dagu_table_def)
  have c1: "velocity (tick ?i1 ?s) = 0 \<and> steerposition (tick ?i1 ?s) = 0"
    using link_down_zeroes [of ?i1 ?s] by simp
  have c2: "(sint (steerposition (tick ?i2 ?s)), sint (velocity (tick ?i2 ?s))) = (0, 0)"
    using link_down_zeroes [of ?i2 ?s] n(1) t(1) by simp
  have c3: "(sint (steerposition (tick ?i3 ?s)), sint (velocity (tick ?i3 ?s))) = (0, 114)"
    using link_down_zeroes [of ?i3 ?s] n(2) t(2) by simp
  show ?thesis
    using a b c1 c2 c3 by simp
qed

section \<open>The battery-critical check\<close>

text \<open>
  C5, as stated: whenever the loop calls \<open>batt_low_consistently\<close>, both velocities are
  zero when the call starts. After nine idle passes with every sample at the baseline,
  the tenth pass decodes 0x19, samples a level of 0 and enters the call with drive
  velocity 114.
\<close>

theorem check_entry_counterexample:
  "battlevel (tick_front \<lparr>PIND4 = True, rx = Some 0x19\<rparr>
       (run (replicate 9 idle) (initial_state (adc_const 142)))) < battlowthreshold
   \<and> \<not> (velocity (batt_announce (tick_front \<lparr>PIND4 = True, rx = Some 0x19\<rparr>
              (run (replicate 9 idle) (initial_state (adc_const 142))))) = 0
         \<and> steerposition (batt_announce (tick_front \<lparr>PIND4 = True, rx = Some 0x19\<rparr>
              (run (replicate 9 idle) (initial_state (adc_const 142))))) = 0)"
  by code_simp

text \<open>
  C5, amended: the loop calls \<open>batt_low_consistently\<close> exactly on the passes that reach
  the check with the battery level below the threshold, whatever the velocities are: on
  such a pass the 20 samples are read and the check's line follows the \<open>batt=\<close> line,
  on any other pass nothing more happens. The velocities are set to zero after the call,
  and only when it returns true: then the pass ends with both velocities zero and the two
  report lines come last; otherwise the pass ends in the state the call returned, with the
  velocities it had when the call started.
\<close>

theorem check_then_override:
  "(if battlevel (tick_front inp s) < battlowthreshold
    then adc_reads (tick inp s) = adc_reads (tick_front inp s) + 20
       \<and> prefix (uart_tx (batt_announce (tick_front inp s)) @ map ch ''batt long check:'')
             (uart_tx (tick inp s))
       \<and> (if fst (batt_low_consistently battlowthreshold (batt_announce (tick_front inp s))) \<noteq> 0
            then velocity (tick inp s) = 0 \<and> steerposition (tick inp s) = 0
               \<and> uart_tx (tick inp s)
                   = uart_tx (snd (batt_low_consistently battlowthreshold
                       (batt_announce (tick_front inp s)))) @ override_report
            else tick inp s
                   = snd (batt_low_consistently battlowthreshold (batt_announce (tick_front inp s)))
               \<and> velocity (tick inp s) = velocity (batt_announce (tick_front inp s))
               \<and> steerposition (tick inp s) = steerposition (batt_announce (tick_front inp s)))
    else tick inp s = tick_front inp s)"
proof (cases "battlevel (tick_front inp s) < battlowthreshold")
  case False
  then show ?thesis by (simp add: tick_def batt_critical_check_def)
next
  case True
  let ?e = "batt_announce (tick_front inp s)"
  let ?c = "snd (batt_low_consistently battlowthreshold ?e)"
  have r: "adc_reads (tick inp s) = adc_reads (tick_front inp s) + 20"
    unfolding tick_def batt_critical_check_low [OF True]
    by (simp add: batt_low_consistently_reads)
  have p: "prefix (uart_tx ?e @ map ch ''batt long check:'') (uart_tx (tick inp s))"
  proof -
    have "prefix (uart_tx ?e @ map ch ''batt long check:'') (uart_tx ?c)"
      by (rule batt_low_consistently_tx)
    moreover have "prefix (uart_tx ?c) (uart_tx (tick inp s))"
      unfolding tick_def batt_critical_check_low [OF True]
      using steer_after_drive_grows [of "led3on ?c" 0 0] steer_after_drive_grows [of "led3off ?c" 0 0]
      by simp
    ultimately show ?thesis by (rule prefix_order.trans)
  qed
  have v: "fst (batt_low_consistently battlowthreshold ?e) \<noteq> 0 \<Longrightarrow>
      velocity (tick inp s) = 0 \<and> steerposition (tick inp s) = 0
      \<and> uart_tx (tick inp s) = uart_tx ?c @ override_report"
    unfolding tick_def batt_critical_check_low [OF True]
    by (simp add: uart_tx_override)
  have w: "fst (batt_low_consistently battlowthreshold ?e) = 0 \<Longrightarrow>
      tick inp s = ?c \<and> velocity (tick inp s) = velocity ?e
      \<and> steerposition (tick inp s) = steerposition ?e"
    unfolding tick_def batt_critical_check_low [OF True]
    by simp
  show ?thesis using True r p v w by simp
qed

theorem check_then_override_witness:
  "battlevel (tick_front \<lparr>PIND4 = True, rx = Some 0x19\<rparr>
       (run (replicate 9 idle) (initial_state (adc_const 142)))) < battlowthreshold
   \<and> fst (batt_low_consistently battlowthreshold
          (batt_announce (tick_front \<lparr>PIND4 = True, rx = Some 0x19\<rparr>
             (run (replicate 9 idle) (initial_state (adc_const 142)))))) = 1
   \<and> adc_reads (tick \<lparr>PIND4 = True, rx = Some 0x19\<rparr>
         (run (replicate 9 idle) (initial_state (adc_const 142)))) = 21
   \<and> velocity (tick \<lparr>PIND4 = True, rx = Some 0x19\<rparr>
         (run (replicate 9 idle) (initial_state (adc_const 142)))) = 0
   \<and> steerposition (tick \<lparr>PIND4 = True, rx = Some 0x19\<rparr>
         (run (replicate 9 idle) (initial_state (adc_const 142)))) = 0
   \<and> battlevel (tick_front \<lparr>PIND4 = True, rx = Some 0x19\<rparr>
       (run (replicate 9 idle) (initial_state (adc_step 1 142 255)))) < battlowthreshold
   \<and> fst (batt_low_consistently battlowthreshold
          (batt_announce (tick_front \<lparr>PIND4 = True, rx = Some 0x19\<rparr>
             (run (replicate 9 idle) (initial_state (adc_step 1 142 255)))))) = 0
   \<and> adc_reads (tick \<lparr>PIND4 = True, rx = Some 0x19\<rparr>
         (run (replicate 9 idle) (initial_state (adc_step 1 142 255)))) = 21
   \<and> sint (velocity (tick \<lparr>PIND4 = True, rx = Some 0x19\<rparr>
         (run (replicate 9 idle) (initial_state (adc_step 1 142 255))))) = 114
   \<and> \<not> battlevel (tick_front \<lparr>PIND4 = True, rx = Some 0x19\<rparr>
         (initial_state (adc_const 142))) < battlowthreshold
   \<and> adc_reads (tick \<lparr>PIND4 = True, rx = Some 0x19\<rparr> (initial_state (adc_const 142))) = 0"
proof -
  let ?i = "\<lparr>PIND4 = True, rx = Some 0x19\<rparr>"
  let ?a = "run (replicate 9 idle) (initial_state (adc_const 142))"
  let ?b = "run (replicate 9 idle) (initial_state (adc_step 1 142 255))"
  let ?c = "initial_state (adc_const 142)"
  have a1: "battlevel (tick_front ?i ?a) < battlowthreshold"
    by code_simp
  have a2: "fst (batt_low_consistently battlowthreshold (batt_announce (tick_front ?i ?a))) = 1"
    by code_simp
  have a3: "adc_reads (tick_front ?i ?a) = 1"
    by code_simp
  have a4: "adc_reads (tick ?i ?a) = 21 \<and> velocity (tick ?i ?a) = 0
      \<and> steerposition (tick ?i ?a) = 0"
    using check_then_override [of ?i ?a] a1 a2 a3 by simp
  have b1: "battlevel (tick_front ?i ?b) < battlowthreshold"
    by code_simp
  have b2: "fst (batt_low_consistently battlowthreshold (batt_announce (tick_front ?i ?b))) = 0"
    by code_simp
  have b3: "sint (velocity (batt_announce (tick_front ?i ?b))) = 114"
    by code_simp
  have b4: "adc_reads (tick_front ?i ?b) = 1"
    by code_simp
  have b5: "adc_reads (tick ?i ?b) = 21
      \<and> velocity (tick ?i ?b) = velocity (batt_announce (tick_front ?i ?b))"
    using check_then_override [of ?i ?b] b1 b2 b4 by (simp add: batt_low_consistently_reads)
  have c1: "\<not> battlevel (tick_front ?i ?c) < battlowthreshold"
    by code_simp
  have c2: "adc_reads (tick_front ?i ?c) = 0"
    by code_simp
  have c3: "adc_reads (tick ?i ?c) = 0"
    using check_then_override [of ?i ?c] c1 c2 by simp
  show ?thesis
    using a1 a2 a4 b1 b2 b3 b5 c1 c3 by simp
qed

section \<open>The toggles\<close>

text \<open>In a pass, each toggle moves as \<open>toggle_step\<close> says, on its own countdown and
  boolean alone: the inputs, the battery and the other toggle have no part in it.\<close>

lemma tick_battwarn:
  "(battwarntogglecountdown (tick inp s), battwarntogglestate (tick inp s))
     = toggle_step battwarntoggleperiodlength (battwarntogglecountdown s, battwarntogglestate s)"
  by (simp add: tick_def tick_front_def battwarn_step_def toggle_step_def Let_def)

lemma tick_voltagedisplay:
  "(voltagedisplaytogglecountdown (tick inp s), voltagedisplaytogglestate (tick inp s))
     = toggle_step voltagedisplaytoggleperiodlength
         (voltagedisplaytogglecountdown s, voltagedisplaytogglestate s)"
  by (simp add: tick_def tick_front_def voltagedisplay_step_def toggle_step_def Let_def)

lemma run_toggle:
  assumes "\<And>inp s. (c (tick inp s), b (tick inp s)) = toggle_step P (c s, b s)"
  shows "(c (run inps s), b (run inps s)) = (toggle_step P ^^ length inps) (c s, b s)"
proof (induction inps arbitrary: s)
  case Nil
  show ?case by simp
next
  case (Cons inp inps)
  have "(c (run (inp # inps) s), b (run (inp # inps) s))
          = (toggle_step P ^^ length inps) (c (tick inp s), b (tick inp s))"
    using Cons.IH [of "tick inp s"] by simp
  also have "\<dots> = (toggle_step P ^^ length inps) (toggle_step P (c s, b s))"
    by (simp only: assms)
  also have "\<dots> = (toggle_step P ^^ length (inp # inps)) (c s, b s)"
    by (simp add: funpow_swap1)
  finally show ?case .
qed

lemma run_battwarn:
  "(battwarntogglecountdown (run inps s), battwarntogglestate (run inps s))
     = (toggle_step battwarntoggleperiodlength ^^ length inps)
         (battwarntogglecountdown s, battwarntogglestate s)"
  by (rule run_toggle) (rule tick_battwarn)

lemma run_voltagedisplay:
  "(voltagedisplaytogglecountdown (run inps s), voltagedisplaytogglestate (run inps s))
     = (toggle_step voltagedisplaytoggleperiodlength ^^ length inps)
         (voltagedisplaytogglecountdown s, voltagedisplaytogglestate s)"
  by (rule run_toggle) (rule tick_voltagedisplay)

text \<open>A countdown \<open>c\<close> reaches zero after \<open>c\<close> passes, and a countdown of 0 after 256:
  its first decrement wraps to 255.\<close>

lemma u8_zero_le [simp]: "((x :: u8) \<le> 0) = (x = 0)"
  by (simp add: word_le_nat_alt unat_eq_0)

lemma toggle_step_dec: "c - 1 \<noteq> 0 \<Longrightarrow> toggle_step P (c, b) = (c - 1, b)"
  by (simp add: toggle_step_def Let_def)

lemma toggle_step_reload: "c - 1 = 0 \<Longrightarrow> toggle_step P (c, b) = (P, lnot b)"
  by (simp add: toggle_step_def Let_def)

lemma countdown_not_yet:
  fixes c :: u8
  assumes "0 < k" and "k < (if c = 0 then 256 else unat c)"
  shows "c - of_nat k \<noteq> 0"
proof
  assume "c - of_nat k = 0"
  then have "c = of_nat k" by simp
  moreover have "unat c < 256"
    using unsigned_less [of c, where ?'a = nat] by simp
  then have "k < 256" using assms by (simp split: if_splits)
  then have "unat (of_nat k :: u8) = k"
    by (simp add: unsigned_of_nat take_bit_nat_eq_self)
  ultimately have "unat c = k" by simp
  then show False using assms by (auto split: if_splits)
qed

lemma countdown_reached:
  fixes c :: u8
  assumes "k = (if c = 0 then 256 else unat c)"
  shows "c - of_nat k = 0"
  using assms by (simp split: if_splits)

lemma toggle_step_before:
  assumes "n < (if c = 0 then 256 else unat c)"
  shows "(toggle_step P ^^ n) (c, b) = (c - of_nat n, b)"
  using assms
proof (induction n)
  case 0
  show ?case by simp
next
  case (Suc n)
  have ne: "c - of_nat n - 1 \<noteq> 0"
    using countdown_not_yet [of "Suc n" c] Suc.prems by (simp add: diff_diff_eq add.commute)
  have "(toggle_step P ^^ Suc n) (c, b) = toggle_step P ((toggle_step P ^^ n) (c, b))"
    by simp
  also have "\<dots> = toggle_step P (c - of_nat n, b)"
    using Suc by simp
  also have "\<dots> = (c - of_nat n - 1, b)"
    using ne by (rule toggle_step_dec)
  also have "\<dots> = (c - of_nat (Suc n), b)"
    by (simp add: diff_diff_eq add.commute)
  finally show ?case .
qed

lemma toggle_step_at:
  assumes "n = (if c = 0 then 256 else unat c)"
  shows "(toggle_step P ^^ n) (c, b) = (P, lnot b)"
proof -
  have "0 < n" using assms by (auto simp add: unat_gt_0 split: if_splits)
  then obtain m where m: "n = Suc m" by (cases n) auto
  have z: "c - of_nat m - 1 = 0"
    using countdown_reached [OF assms] m by (simp add: diff_diff_eq add.commute)
  have "(toggle_step P ^^ m) (c, b) = (c - of_nat m, b)"
    using assms m by (intro toggle_step_before) simp
  then have "(toggle_step P ^^ Suc m) (c, b) = toggle_step P (c - of_nat m, b)"
    by simp
  also have "\<dots> = (P, lnot b)"
    using z by (rule toggle_step_reload)
  finally show ?thesis using m by simp
qed

text \<open>Once reloaded, each toggle flips at every 20th, respectively 200th, pass and at no
  other; the display toggle, whose countdown starts at 10, flips first at pass 10.\<close>

lemma battwarn_period:
  assumes "battwarntogglecountdown s = battwarntoggleperiodlength"
  shows "length inps < 20 \<Longrightarrow> battwarntogglestate (run inps s) = battwarntogglestate s"
    and "length inps = 20 \<Longrightarrow> battwarntogglestate (run inps s) = lnot (battwarntogglestate s)
           \<and> battwarntogglecountdown (run inps s) = battwarntoggleperiodlength"
proof -
  let ?P = battwarntoggleperiodlength
  have u: "unat ?P = 20" and nz: "?P \<noteq> 0"
    by (simp_all add: battwarntoggleperiodlength_def)
  {
    assume "length inps < 20"
    then have "(toggle_step ?P ^^ length inps) (?P, battwarntogglestate s)
                 = (?P - of_nat (length inps), battwarntogglestate s)"
      using u nz by (intro toggle_step_before) simp
    then have "(battwarntogglecountdown (run inps s), battwarntogglestate (run inps s))
                 = (?P - of_nat (length inps), battwarntogglestate s)"
      by (simp add: run_battwarn assms)
    then show "battwarntogglestate (run inps s) = battwarntogglestate s" by simp
  }
  {
    assume "length inps = 20"
    then have "(toggle_step ?P ^^ length inps) (?P, battwarntogglestate s)
                 = (?P, lnot (battwarntogglestate s))"
      using u nz by (intro toggle_step_at) simp
    then have "(battwarntogglecountdown (run inps s), battwarntogglestate (run inps s))
                 = (?P, lnot (battwarntogglestate s))"
      by (simp add: run_battwarn assms)
    then show "battwarntogglestate (run inps s) = lnot (battwarntogglestate s)
           \<and> battwarntogglecountdown (run inps s) = ?P" by simp
  }
qed

lemma voltagedisplay_period:
  assumes "voltagedisplaytogglecountdown s = voltagedisplaytoggleperiodlength"
  shows "length inps < 200 \<Longrightarrow>
           voltagedisplaytogglestate (run inps s) = voltagedisplaytogglestate s"
    and "length inps = 200 \<Longrightarrow>
           voltagedisplaytogglestate (run inps s) = lnot (voltagedisplaytogglestate s)
           \<and> voltagedisplaytogglecountdown (run inps s) = voltagedisplaytoggleperiodlength"
proof -
  let ?P = voltagedisplaytoggleperiodlength
  have u: "unat ?P = 200" and nz: "?P \<noteq> 0"
    by (simp_all add: voltagedisplaytoggleperiodlength_def)
  {
    assume "length inps < 200"
    then have "(toggle_step ?P ^^ length inps) (?P, voltagedisplaytogglestate s)
                 = (?P - of_nat (length inps), voltagedisplaytogglestate s)"
      using u nz by (intro toggle_step_before) simp
    then have "(voltagedisplaytogglecountdown (run inps s), voltagedisplaytogglestate (run inps s))
                 = (?P - of_nat (length inps), voltagedisplaytogglestate s)"
      by (simp add: run_voltagedisplay assms)
    then show "voltagedisplaytogglestate (run inps s) = voltagedisplaytogglestate s" by simp
  }
  {
    assume "length inps = 200"
    then have "(toggle_step ?P ^^ length inps) (?P, voltagedisplaytogglestate s)
                 = (?P, lnot (voltagedisplaytogglestate s))"
      using u nz by (intro toggle_step_at) simp
    then have "(voltagedisplaytogglecountdown (run inps s), voltagedisplaytogglestate (run inps s))
                 = (?P, lnot (voltagedisplaytogglestate s))"
      by (simp add: run_voltagedisplay assms)
    then show "voltagedisplaytogglestate (run inps s) = lnot (voltagedisplaytogglestate s)
           \<and> voltagedisplaytogglecountdown (run inps s) = ?P" by simp
  }
qed

lemma voltagedisplay_first_flip:
  shows "length inps < 10 \<Longrightarrow> voltagedisplaytogglestate (run inps (initial_state adc)) = 0"
    and "length inps = 10 \<Longrightarrow> voltagedisplaytogglestate (run inps (initial_state adc)) = 1
           \<and> voltagedisplaytogglecountdown (run inps (initial_state adc))
               = voltagedisplaytoggleperiodlength"
proof -
  let ?P = voltagedisplaytoggleperiodlength
  {
    assume "length inps < 10"
    then have "(toggle_step ?P ^^ length inps) (10, 0) = (10 - of_nat (length inps), 0)"
      by (intro toggle_step_before) simp
    then have "(voltagedisplaytogglecountdown (run inps (initial_state adc)),
                voltagedisplaytogglestate (run inps (initial_state adc)))
                 = (10 - of_nat (length inps), 0)"
      by (simp add: run_voltagedisplay initial_state_def)
    then show "voltagedisplaytogglestate (run inps (initial_state adc)) = 0" by simp
  }
  {
    assume "length inps = 10"
    then have "(toggle_step ?P ^^ length inps) (10, 0) = (?P, lnot 0)"
      by (intro toggle_step_at) simp
    then have "(voltagedisplaytogglecountdown (run inps (initial_state adc)),
                voltagedisplaytogglestate (run inps (initial_state adc)))
                 = (?P, lnot 0)"
      by (simp add: run_voltagedisplay initial_state_def)
    then show "voltagedisplaytogglestate (run inps (initial_state adc)) = 1
           \<and> voltagedisplaytogglecountdown (run inps (initial_state adc)) = ?P"
      by (simp add: lnot_def)
  }
qed

lemma battwarn_toggle_first_flip:
  assumes "length inps = 256"
  shows "battwarntogglestate (run inps (initial_state adc)) = 1"
    and "battwarntogglecountdown (run inps (initial_state adc)) = battwarntoggleperiodlength"
proof -
  have "(toggle_step battwarntoggleperiodlength ^^ length inps) (0, 0)
          = (battwarntoggleperiodlength, lnot 0)"
    using assms by (intro toggle_step_at) simp
  then have "(battwarntogglecountdown (run inps (initial_state adc)),
              battwarntogglestate (run inps (initial_state adc)))
          = (battwarntoggleperiodlength, lnot 0)"
    by (simp add: run_battwarn initial_state_def)
  then show "battwarntogglestate (run inps (initial_state adc)) = 1"
    and "battwarntogglecountdown (run inps (initial_state adc)) = battwarntoggleperiodlength"
    by (simp_all add: lnot_def)
qed

text \<open>
  C8: each toggle, from its declared initial countdown, flips exactly once every P
  passes. The countdown of the warning toggle is declared 0: whatever the inputs, the
  toggle does not flip during the first 255 passes, in which a toggle of period 20 flips
  12 times.
\<close>

theorem battwarn_toggle_late:
  assumes "length inps \<le> 255"
  shows "battwarntogglestate (run inps (initial_state adc)) = 0"
proof -
  have "(toggle_step battwarntoggleperiodlength ^^ length inps) (0, 0)
          = (0 - of_nat (length inps), 0)"
    using assms by (intro toggle_step_before) simp
  then have "(battwarntogglecountdown (run inps (initial_state adc)),
              battwarntogglestate (run inps (initial_state adc)))
          = (0 - of_nat (length inps), 0)"
    by (simp add: run_battwarn initial_state_def)
  then show ?thesis by simp
qed

theorem battwarn_toggle_late_witness:
  "length (replicate 255 idle) \<le> 255
   \<and> battwarntogglestate (run (replicate 255 idle) (initial_state (adc_const 0))) = 0"
  using battwarn_toggle_late [of "replicate 255 idle" "adc_const 0"] by simp

end
